theory Spec2Isabelle
  imports Complex_Main "HOL-Library.AList" "HOL-Library.FSet" "HOL-Library.Sublist"
    "HOL-Library.Log_Nat"
begin

section \<open>JavaScript values used by the upload coordinator\<close>

text \<open>
  Conventions of the embedding.
  \<^item> Strings are lists of code units. The document and the objects in it are plain
    objects: \<open>obj[k]\<close> finds the own key \<open>k\<close> of the map, and otherwise the
    property of that name inherited from \<open>Object.prototype\<close>, if there is one
    (\<open>inherited\<close> below). The ephemeral store is made of \<open>Map\<close>s, which have
    own keys only.
  \<^item> A Number is an integer or one of the non-finite values that the arithmetic of
    the manager can produce; \<open>Null\<close> is what \<open>JSON.stringify\<close> makes of a
    non-finite Number. Fractions are not modelled as values; the quotient inside
    \<open>Math.ceil(fileSize / chunkSize)\<close> is rounded as a binary64 number.
  \<^item> A field that a JavaScript object may lack is an \<open>option\<close>.
  \<^item> \<open>this._now()\<close> is the parameter \<open>now\<close> of an operation, the values of
    \<open>this._createUserId()\<close> are the list \<open>ids\<close>, the value of
    \<open>this._createFileId()\<close> is the parameter \<open>uploadId\<close>.
\<close>

datatype jsnum = Num int | PosInf | NegInf | NaN | Null

text \<open>\<open>JSON.parse(JSON.stringify(x))\<close> on a Number.\<close>

fun json_num :: "jsnum \<Rightarrow> jsnum" where
  "json_num (Num n) = Num n"
| "json_num PosInf = Null"
| "json_num NegInf = Null"
| "json_num NaN = Null"
| "json_num Null = Null"


fun js_ge :: "int \<Rightarrow> jsnum \<Rightarrow> bool" where
  "js_ge i (Num n) = (n \<le> i)"
| "js_ge i PosInf = False"
| "js_ge i NegInf = True"
| "js_ge i NaN = False"
| "js_ge i Null = (0 \<le> i)"

text \<open>\<open>t - k\<close> for the length \<open>k\<close> of an array.\<close>

fun js_minus :: "jsnum \<Rightarrow> nat \<Rightarrow> jsnum" where
  "js_minus (Num n) k = Num (n - int k)"
| "js_minus PosInf k = PosInf"
| "js_minus NegInf k = NegInf"
| "js_minus NaN k = NaN"
| "js_minus Null k = Num (0 - int k)"

subsection \<open>Math.ceil(a / b)\<close>

text \<open>
  \<open>a / b\<close> is the quotient rounded to the nearest binary64 number, ties to even.
  For positive integers \<open>a\<close> and \<open>b\<close> the rounded quotient is \<open>m * 2 ^ e\<close>
  with a significand \<open>m\<close> of at most 53 bits: \<open>binade a b\<close> is the integer part of
  the binary logarithm of \<open>a / b\<close>, the exponent is 52 below it and not below -1074
  (subnormal numbers), and \<open>m\<close> is \<open>a / (b * 2 ^ e)\<close> rounded to an integer. A
  quotient of \<open>2 ^ 1024\<close> or more is \<open>Infinity\<close>.
\<close>

definition round_half_even :: "int \<Rightarrow> int \<Rightarrow> int" where
  "round_half_even n d =
     (let q = n div d; r = n mod d
      in if 2 * r < d then q else if d < 2 * r then q + 1 else if even q then q else q + 1)"

text \<open>Numerator and denominator of \<open>(a / b) / 2 ^ z\<close>.\<close>

definition scaled_num :: "int \<Rightarrow> int \<Rightarrow> int" where
  "scaled_num a z = (if z < 0 then a * 2 ^ nat (- z) else a)"

definition scaled_den :: "int \<Rightarrow> int \<Rightarrow> int" where
  "scaled_den b z = (if z < 0 then b else b * 2 ^ nat z)"

definition binade :: "int \<Rightarrow> int \<Rightarrow> int" where
  "binade a b =
     (let t = bitlen a - bitlen b
      in if scaled_den b t \<le> scaled_num a t then t else t - 1)"

definition double_quotient :: "int \<Rightarrow> int \<Rightarrow> (int \<times> int) option" where
  "double_quotient a b =
     (let e = max (binade a b - 52) (- 1074);
          m = round_half_even (scaled_num a e) (scaled_den b e)
      in if 0 \<le> e \<and> 2 ^ 1024 \<le> m * 2 ^ nat e then None else Some (m, e))"

text \<open>\<open>Math.ceil\<close> and \<open>Math.floor\<close> of \<open>m * 2 ^ e\<close>.\<close>

definition ceil_double :: "int \<Rightarrow> int \<Rightarrow> int" where
  "ceil_double m e = (if e < 0 then - ((- m) div 2 ^ nat (- e)) else m * 2 ^ nat e)"

definition floor_double :: "int \<Rightarrow> int \<Rightarrow> int" where
  "floor_double m e = (if e < 0 then m div 2 ^ nat (- e) else m * 2 ^ nat e)"

text \<open>
  \<open>Math.ceil(a / b)\<close> for integers \<open>a\<close> and \<open>b\<close>. Rounding is symmetric in the
  sign, and \<open>Math.ceil(-x)\<close> is \<open>-Math.floor(x)\<close>; the sign of a zero is not kept.
\<close>

definition js_ceil_div :: "int \<Rightarrow> int \<Rightarrow> jsnum" where
  "js_ceil_div a b =
     (if b = 0 then (if 0 < a then PosInf else if a < 0 then NegInf else NaN)
      else if a = 0 then Num 0
      else
        (case double_quotient \<bar>a\<bar> \<bar>b\<bar> of
           None \<Rightarrow> if (a < 0) = (b < 0) then PosInf else NegInf
         | Some (m, e) \<Rightarrow>
             if (a < 0) = (b < 0) then Num (ceil_double m e) else Num (- floor_double m e)))"

text \<open>Truthiness of an optional string (\<open>undefined\<close> and \<open>''\<close> are falsy).\<close>

fun truthy :: "string option \<Rightarrow> bool" where
  "truthy None = False"
| "truthy (Some s) = (s \<noteq> [])"

section \<open>Data model\<close>

datatype error =
    upload_not_found
  | chunk_out_of_range
  | user_not_found
  | missing_chunk int
  | missing_fields
  | invalid_sizes
  | read_failed
  | json_syntax_error
  | id_factory_exhausted
  | outside_embedding

text \<open>
  \<open>read_failed\<close> is any error of \<open>fs.readJson\<close> other than \<open>ENOENT\<close>;
  \<open>json_syntax_error\<close> is the \<open>SyntaxError\<close> of \<open>JSON.parse(undefined)\<close>.
  \<open>id_factory_exhausted\<close> is not an exception of the program: it marks that the
  supplied outputs of the id factory were all taken, so the retry loop of
  \<open>identifyUser\<close> is still running. \<open>outside_embedding\<close> is not an exception of
  the program either: it marks that the program has used an object inherited from
  \<open>Object.prototype\<close> as a user record or as an upload, from where on the embedding
  does not follow it (section \<open>Names inherited from Object.prototype\<close>).
\<close>

record upload =
  upload_id :: string
  userKey :: string
  fileName :: string
  fileSize :: int
  chunkSize :: int
  totalChunks :: jsnum
  persist :: bool
  status :: string
  receivedChunks :: "int fset"
  receivedCount :: "jsnum option"
  createdAt :: string
  updatedAt :: string
  completedAt :: "string option"
  missingChunks :: "int list option"

record history_entry =
  h_id :: string
  h_fileName :: string
  h_fileSize :: int
  h_completedAt :: string
  h_chunkSize :: int
  h_totalChunks :: jsnum
  h_persist :: bool

record user_record =
  key :: string
  u_createdAt :: string
  uploads :: "(string \<times> upload) list"
  history :: "history_entry list"

record state =
  users :: "string \<rightharpoonup> user_record"

text \<open>\<open>_deepClone\<close>: a round trip through JSON text.\<close>

definition deepClone :: "upload \<Rightarrow> upload" where
  "deepClone u =
     u\<lparr>totalChunks := json_num (totalChunks u),
       receivedCount := map_option json_num (receivedCount u)\<rparr>"

definition json_entry :: "history_entry \<Rightarrow> history_entry" where
  "json_entry h = h\<lparr>h_totalChunks := json_num (h_totalChunks h)\<rparr>"

definition deepClone_user :: "user_record \<Rightarrow> user_record" where
  "deepClone_user r =
     r\<lparr>uploads := map (\<lambda>(k, u). (k, deepClone u)) (uploads r),
       history := map json_entry (history r)\<rparr>"

definition json_state :: "state \<Rightarrow> state" where
  "json_state st = st\<lparr>users := (\<lambda>k. map_option deepClone_user (users st k))\<rparr>"

section \<open>State Store (datastore.js)\<close>

text \<open>
  The backing file is absent, holds the text that \<open>outputJson\<close> wrote for a
  document, or holds something \<open>readJson\<close> rejects. Parsing the text yields the
  document as it comes out of JSON. \<open>_lock\<close> is a promise; between two
  operations it is settled, and all that later operations see of it is whether it was
  rejected, and with what.
\<close>

datatype backing_file = Absent | Content state | Unreadable

datatype lock_state = Fulfilled | Rejected error

record datastore =
  backing :: backing_file
  lock :: lock_state

fun read_file :: "backing_file \<Rightarrow> error + state" where
  "read_file Absent = Inr \<lparr>users = Map.empty\<rparr>"
| "read_file (Content st) = Inr (json_state st)"
| "read_file Unreadable = Inl read_failed"

definition write_file :: "state \<Rightarrow> datastore \<Rightarrow> datastore" where
  "write_file st ds = ds\<lparr>backing := Content st\<rparr>"

text \<open>
  A mutator receives the document that was read, changes it in place and returns a
  value or throws: here it returns its outcome together with the document as it left
  it. \<open>this._lock.then(f)\<close> runs \<open>f\<close> only when \<open>_lock\<close> was fulfilled; on a
  rejected \<open>_lock\<close> the new promise is rejected with the same reason. The chain
  runs the operations one at a time in the order of submission, so each is a step on
  the store. Errors of \<open>outputJson\<close> are not modelled. Every caller of
  \<open>readState\<close> passes a selector; without one the document itself is returned,
  which is the selector \<open>Inr\<close>.
\<close>

definition withState ::
    "(state \<Rightarrow> (error + 'a) \<times> state) \<Rightarrow> datastore \<Rightarrow> (error + 'a) \<times> datastore" where
  "withState mutator ds =
     (case lock ds of
        Rejected e \<Rightarrow> (Inl e, ds)
      | Fulfilled \<Rightarrow>
          (case read_file (backing ds) of
             Inl e \<Rightarrow> (Inl e, ds\<lparr>lock := Rejected e\<rparr>)
           | Inr st \<Rightarrow>
               (case mutator st of
                  (Inl e, st') \<Rightarrow> (Inl e, ds\<lparr>lock := Rejected e\<rparr>)
                | (Inr v, st') \<Rightarrow> (Inr v, write_file st' ds))))"

definition readState ::
    "(state \<Rightarrow> error + 'a) \<Rightarrow> datastore \<Rightarrow> (error + 'a) \<times> datastore" where
  "readState selector ds =
     (case lock ds of
        Rejected e \<Rightarrow> (Inl e, ds)
      | Fulfilled \<Rightarrow>
          (case read_file (backing ds) of
             Inl e \<Rightarrow> (Inl e, ds\<lparr>lock := Rejected e\<rparr>)
           | Inr st \<Rightarrow>
               (case selector st of
                  Inl e \<Rightarrow> (Inl e, ds\<lparr>lock := Rejected e\<rparr>)
                | Inr v \<Rightarrow> (Inr v, ds))))"

section \<open>Upload Manager (uploadManager.js)\<close>

text \<open>
  The scratch and output directories are paths on a file system of directories and
  files; \<open>path.join\<close> is concatenation with a slash (its normalisation of empty,
  dot and slash-carrying segments is not modelled).
\<close>

record filesystem =
  dirs :: "string set"
  files :: "string \<rightharpoonup> string"

record manager =
  uploadDir :: string
  finalDir :: string
  store :: datastore
  ephemeral :: "string \<rightharpoonup> (string \<times> upload) list"
  disk :: filesystem

definition path_join :: "string \<Rightarrow> string \<Rightarrow> string" where
  "path_join a b = a @ ''/'' @ b"

definition ensureDir :: "string \<Rightarrow> filesystem \<Rightarrow> filesystem" where
  "ensureDir p fs = fs\<lparr>dirs := insert p (dirs fs)\<rparr>"

definition new_user :: "string \<Rightarrow> string \<Rightarrow> user_record" where
  "new_user now k = \<lparr>key = k, u_createdAt = now, uploads = [], history = []\<rparr>"

subsection \<open>Names inherited from Object.prototype\<close>

text \<open>
  The names of the properties of \<open>Object.prototype\<close>
  (\<open>Object.getOwnPropertyNames(Object.prototype)\<close>). Each has a truthy value: a
  function, and for \<open>__proto__\<close> the object \<open>Object.prototype\<close>. For such a name
  \<open>k\<close> that is no key of the map, \<open>state.users[k]\<close> is that built-in object. It has
  no \<open>uploads\<close> and no \<open>history\<close> until the program assigns them.
\<close>

definition object_prototype_names :: "string list" where
  "object_prototype_names =
     [''constructor'', ''__defineGetter__'', ''__defineSetter__'', ''hasOwnProperty'',
      ''__lookupGetter__'', ''__lookupSetter__'', ''isPrototypeOf'',
      ''propertyIsEnumerable'', ''toString'', ''valueOf'', ''__proto__'',
      ''toLocaleString'']"

definition inherited :: "string \<Rightarrow> bool" where
  "inherited k = (k \<in> set object_prototype_names)"

text \<open>\<open>state.users[k]\<close> is truthy.\<close>

definition has_user :: "state \<Rightarrow> string \<Rightarrow> bool" where
  "has_user st k = (users st k \<noteq> None \<or> inherited k)"

text \<open>\<open>state.users[k]\<close> is a built-in object, not a user record of the document.\<close>

definition inherited_user :: "state \<Rightarrow> string \<Rightarrow> bool" where
  "inherited_user st k = (users st k = None \<and> inherited k)"

text \<open>
  A manager of the embedding stands for a process in which no built-in object carries
  a property that the program has put there. Two things lead out of it.
  \<^item> An assignment that lands outside the document: \<open>_ensureUserRecord\<close> and
    \<open>clearHistory\<close> on a built-in object (\<open>user.uploads\<close>, \<open>user.history\<close> and
    what is put into them become properties of that object), and
    \<open>user.uploads['__proto__'] = ...\<close>, which sets the prototype of \<open>user.uploads\<close>.
    The mutator returns what the program returns, flagged \<open>True\<close>; the document is
    written without the assigned value; the operation returns its result; and the
    store is left as \<open>outside\<close>, so that every later operation on it answers
    \<open>outside_embedding\<close>.
  \<^item> \<open>user.uploads[uploadId]\<close> for an upload id that is an inherited name and no key
    of \<open>user.uploads\<close>: the "upload" is a built-in object. The lookup answers
    \<open>outside_embedding\<close>.
\<close>

definition outside :: "datastore \<Rightarrow> datastore" where
  "outside ds = ds\<lparr>lock := Rejected outside_embedding\<rparr>"

text \<open>
  \<open>_ensureUserRecord\<close>: a record is created when \<open>state.users[userKey]\<close> is falsy.
  On a built-in object the two assignments \<open>user.uploads = user.uploads || {}\<close> and
  \<open>user.history = user.history || []\<close> do not change the document.
\<close>

definition ensureUserRecord :: "string \<Rightarrow> string \<Rightarrow> state \<Rightarrow> state" where
  "ensureUserRecord now k st =
     (if has_user st k then st else st\<lparr>users := (users st)(k \<mapsto> new_user now k)\<rparr>)"

definition ensureEphemeralUser ::
    "string \<Rightarrow> (string \<rightharpoonup> (string \<times> upload) list) \<Rightarrow> (string \<rightharpoonup> (string \<times> upload) list)" where
  "ensureEphemeralUser k eph = (case eph k of None \<Rightarrow> eph(k \<mapsto> []) | Some b \<Rightarrow> eph)"

text \<open>\<open>memoryUser && memoryUser.uploads.has(uploadId)\<close>, with the upload found.\<close>

definition memory_upload :: "manager \<Rightarrow> string \<Rightarrow> string \<Rightarrow> upload option" where
  "memory_upload m k uid = (case ephemeral m k of None \<Rightarrow> None | Some b \<Rightarrow> map_of b uid)"

text \<open>The upload stored in the document under user \<open>k\<close> and id \<open>uid\<close>.\<close>

definition stored_upload :: "state \<Rightarrow> string \<Rightarrow> string \<Rightarrow> upload option" where
  "stored_upload st k uid = (case users st k of None \<Rightarrow> None | Some r \<Rightarrow> map_of (uploads r) uid)"

text \<open>
  \<open>if (!user || !user.uploads || !user.uploads[uploadId]) throw new
  Error('upload_not_found'); const upload = user.uploads[uploadId];\<close>
  A built-in object in the place of the user has no \<open>uploads\<close>.
\<close>

definition find_upload :: "state \<Rightarrow> string \<Rightarrow> string \<Rightarrow> error + upload" where
  "find_upload st k uid =
     (case users st k of
        None \<Rightarrow> Inl upload_not_found
      | Some r \<Rightarrow>
          (case map_of (uploads r) uid of
             Some u \<Rightarrow> Inr u
           | None \<Rightarrow> if inherited uid then Inl outside_embedding else Inl upload_not_found))"

subsection \<open>identifyUser\<close>

record identify_result =
  r_userKey :: string
  created :: bool

text \<open>\<open>do { candidate = this._createUserId(); } while (state.users[candidate]);\<close>\<close>

fun fresh_id :: "state \<Rightarrow> string list \<Rightarrow> string option" where
  "fresh_id st [] = None"
| "fresh_id st (c # cs) = (if has_user st c then fresh_id st cs else Some c)"

definition identify_mutator ::
    "string \<Rightarrow> string list \<Rightarrow> string option \<Rightarrow> state \<Rightarrow> (error + identify_result) \<times> state" where
  "identify_mutator now ids requestedKey st =
     (let candidate =
            (case requestedKey of
               None \<Rightarrow> fresh_id st ids
             | Some k \<Rightarrow> if k = [] \<or> has_user st k then fresh_id st ids else Some k)
      in case candidate of
           None \<Rightarrow> (Inl id_factory_exhausted, st)
         | Some c \<Rightarrow>
             (Inr \<lparr>r_userKey = c, created = True\<rparr>,
              if \<not> has_user st c then st\<lparr>users := (users st)(c \<mapsto> new_user now c)\<rparr> else st))"

definition identify_create ::
    "string \<Rightarrow> string list \<Rightarrow> string option \<Rightarrow> manager \<Rightarrow> (error + identify_result) \<times> manager" where
  "identify_create now ids requestedKey m =
     (case withState (identify_mutator now ids requestedKey) (store m) of
        (Inl e, ds) \<Rightarrow> (Inl e, m\<lparr>store := ds\<rparr>)
      | (Inr r, ds) \<Rightarrow>
          (Inr r, m\<lparr>store := ds,
                    ephemeral := ensureEphemeralUser (r_userKey r) (ephemeral m)\<rparr>))"

definition identifyUser ::
    "string \<Rightarrow> string list \<Rightarrow> string option \<Rightarrow> manager \<Rightarrow> (error + identify_result) \<times> manager" where
  "identifyUser now ids requestedKey m =
     (case requestedKey of
        None \<Rightarrow> identify_create now ids requestedKey m
      | Some k \<Rightarrow>
          if k = [] then identify_create now ids requestedKey m
          else
            (case readState (\<lambda>st. Inr (has_user st k)) (store m) of
               (Inl e, ds) \<Rightarrow> (Inl e, m\<lparr>store := ds\<rparr>)
             | (Inr exists, ds) \<Rightarrow>
                 if exists then
                   (Inr \<lparr>r_userKey = k, created = False\<rparr>,
                    m\<lparr>store := ds, ephemeral := ensureEphemeralUser k (ephemeral m)\<rparr>)
                 else identify_create now ids requestedKey (m\<lparr>store := ds\<rparr>)))"

subsection \<open>Decoration\<close>

text \<open>
  The bound of \<open>for (let i = 0; i < upload.totalChunks; i += 1)\<close>: the number of
  rounds, or \<open>None\<close> when the loop never ends.
\<close>

fun loop_bound :: "jsnum \<Rightarrow> nat option" where
  "loop_bound (Num n) = Some (nat n)"
| "loop_bound PosInf = None"
| "loop_bound NegInf = Some 0"
| "loop_bound NaN = Some 0"
| "loop_bound Null = Some 0"

definition missingChunks_of :: "upload \<Rightarrow> int list option" where
  "missingChunks_of u =
     (case loop_bound (totalChunks u) of
        None \<Rightarrow> None
      | Some n \<Rightarrow> Some (filter (\<lambda>i. i |\<notin>| receivedChunks u) (map int [0..<n])))"

text \<open>
  \<open>_decorateUpload\<close> runs \<open>_missingChunks\<close> on the clone, whose \<open>totalChunks\<close>
  went through JSON and so is finite or \<open>null\<close>: the loop ends
  (lemma \<open>missingChunks_of_deepClone\<close>), and the branch \<open>None\<close> below is never taken.
\<close>

definition decorateUpload :: "upload \<Rightarrow> upload" where
  "decorateUpload u =
     (let clone = deepClone u;
          missing = (case missingChunks_of clone of None \<Rightarrow> [] | Some ms \<Rightarrow> ms)
      in clone\<lparr>missingChunks := Some missing,
               receivedCount := Some (js_minus (totalChunks clone) (length missing))\<rparr>)"

text \<open>
  Inside a selector or mutator \<open>_decorateUpload\<close> is applied to an upload of the
  parsed document. It changes nothing there and does not throw, so the selectors and
  mutators below hand back the upload itself and the operation decorates it.
\<close>

subsection \<open>Queries\<close>

record snapshot =
  active :: "upload list"
  paused :: "upload list"
  s_history :: "history_entry list"

text \<open>
  \<open>user ? this._deepClone(user) : null\<close>. For a built-in object in the place of
  the user, \<open>JSON.stringify\<close> of a function is \<open>undefined\<close>, on which
  \<open>JSON.parse\<close> throws, and \<open>JSON.stringify(Object.prototype)\<close> is \<open>{}\<close>,
  an object without \<open>uploads\<close> and \<open>history\<close>: \<open>getUserSnapshot\<close> reads these
  two as empty, and reads nothing else of the clone.
\<close>

definition getUserSnapshot_selector :: "string \<Rightarrow> state \<Rightarrow> error + user_record option" where
  "getUserSnapshot_selector k st =
     (case users st k of
        Some r \<Rightarrow> Inr (Some (deepClone_user r))
      | None \<Rightarrow>
          if inherited k then
            (if k = ''__proto__'' then
               Inr (Some \<lparr>key = [], u_createdAt = [], uploads = [], history = []\<rparr>)
             else Inl json_syntax_error)
          else Inr None)"

definition getUserSnapshot :: "string \<Rightarrow> manager \<Rightarrow> (error + snapshot option) \<times> manager" where
  "getUserSnapshot k m =
     (case readState (getUserSnapshot_selector k) (store m) of
        (Inl e, ds) \<Rightarrow> (Inl e, m\<lparr>store := ds\<rparr>)
      | (Inr persistentUser, ds) \<Rightarrow>
          if persistentUser = None \<and> ephemeral m k = None then (Inr None, m\<lparr>store := ds\<rparr>)
          else
            (let fromState = (case persistentUser of
                                None \<Rightarrow> []
                              | Some r \<Rightarrow> map (\<lambda>(uid, u). decorateUpload u) (uploads r));
                 fromMemory = (case ephemeral m k of
                                 None \<Rightarrow> []
                               | Some b \<Rightarrow> map (\<lambda>(uid, u). decorateUpload u) b);
                 decorated = fromState @ fromMemory
             in (Inr (Some \<lparr>active = filter (\<lambda>d. status d \<noteq> ''paused'') decorated,
                            paused = filter (\<lambda>d. status d = ''paused'') decorated,
                            s_history = (case persistentUser of
                                           None \<Rightarrow> []
                                         | Some r \<Rightarrow> history r)\<rparr>),
                 m\<lparr>store := ds\<rparr>)))"

datatype location = memory | persistent

text \<open>
  \<open>const user = state.users[userKey]; if (!user) return null;
  const upload = user.uploads ? user.uploads[uploadId] : null;\<close>
\<close>

definition getUpload_selector :: "string \<Rightarrow> string \<Rightarrow> state \<Rightarrow> error + upload option" where
  "getUpload_selector k uid st =
     (case users st k of
        None \<Rightarrow> Inr None
      | Some r \<Rightarrow>
          (case map_of (uploads r) uid of
             Some u \<Rightarrow> Inr (Some u)
           | None \<Rightarrow> if inherited uid then Inl outside_embedding else Inr None))"

definition getUpload ::
    "string \<Rightarrow> string \<Rightarrow> manager \<Rightarrow> (error + (location \<times> upload) option) \<times> manager" where
  "getUpload k uid m =
     (case memory_upload m k uid of
        Some u \<Rightarrow> (Inr (Some (memory, decorateUpload u)), m)
      | None \<Rightarrow>
          (case readState (getUpload_selector k uid) (store m) of
             (Inl e, ds) \<Rightarrow> (Inl e, m\<lparr>store := ds\<rparr>)
           | (Inr None, ds) \<Rightarrow> (Inr None, m\<lparr>store := ds\<rparr>)
           | (Inr (Some u), ds) \<Rightarrow> (Inr (Some (persistent, decorateUpload u)), m\<lparr>store := ds\<rparr>)))"

subsection \<open>Mutation of the objects found in the document and in the bucket\<close>

text \<open>
  The program changes the user record and the bucket it looked up in place; the model
  writes the changed value back under the same key.
\<close>

definition modify_user :: "string \<Rightarrow> (user_record \<Rightarrow> user_record) \<Rightarrow> state \<Rightarrow> state" where
  "modify_user k f st =
     (case users st k of None \<Rightarrow> st | Some r \<Rightarrow> st\<lparr>users := (users st)(k \<mapsto> f r)\<rparr>)"

definition modify_bucket ::
    "string \<Rightarrow> ((string \<times> upload) list \<Rightarrow> (string \<times> upload) list) \<Rightarrow>
     (string \<rightharpoonup> (string \<times> upload) list) \<Rightarrow> (string \<rightharpoonup> (string \<times> upload) list)" where
  "modify_bucket k f eph = (case eph k of None \<Rightarrow> eph | Some b \<Rightarrow> eph(k \<mapsto> f b))"

subsection \<open>createUpload\<close>

text \<open>
  \<open>const user = this._ensureUserRecord(state, userKey);
  user.uploads[uploadId] = baseMetadata; return null;\<close>
  The flag returned says that the assignment landed outside the document.
\<close>

definition createUpload_mutator ::
    "string \<Rightarrow> string \<Rightarrow> string \<Rightarrow> upload \<Rightarrow> state \<Rightarrow> (error + bool) \<times> state" where
  "createUpload_mutator now k uploadId baseMetadata st =
     (let st1 = ensureUserRecord now k st
      in if inherited_user st k \<or> uploadId = ''__proto__'' then (Inr True, st1)
         else (Inr False,
               modify_user k (\<lambda>r. r\<lparr>uploads := AList.update uploadId baseMetadata (uploads r)\<rparr>)
                 st1))"

definition createUpload ::
    "string \<Rightarrow> string \<Rightarrow> string \<Rightarrow> string \<Rightarrow> int \<Rightarrow> int \<Rightarrow> bool option \<Rightarrow> manager \<Rightarrow>
     (error + upload) \<times> manager" where
  "createUpload now uploadId k name fsize csize persistArg m =
     (let baseMetadata =
            \<lparr>upload_id = uploadId, userKey = k, fileName = name, fileSize = fsize,
             chunkSize = csize, totalChunks = js_ceil_div fsize csize,
             persist = (persistArg \<noteq> Some False), status = ''active'',
             receivedChunks = {||}, receivedCount = Some (Num 0),
             createdAt = now, updatedAt = now, completedAt = None, missingChunks = None\<rparr>
      in if persist baseMetadata then
           (case withState (createUpload_mutator now k uploadId baseMetadata) (store m) of
              (Inl e, ds) \<Rightarrow> (Inl e, m\<lparr>store := ds\<rparr>)
            | (Inr off, ds) \<Rightarrow>
                (Inr (decorateUpload baseMetadata),
                 m\<lparr>store := (if off then outside ds else ds),
                   disk := ensureDir (path_join (uploadDir m) uploadId) (disk m)\<rparr>))
         else
           (Inr (decorateUpload baseMetadata),
            m\<lparr>ephemeral := modify_bucket k (AList.update uploadId baseMetadata)
                              (ensureEphemeralUser k (ephemeral m)),
              disk := ensureDir (path_join (uploadDir m) uploadId) (disk m)\<rparr>))"

subsection \<open>recordChunk and updateStatus\<close>

definition markChunk :: "string \<Rightarrow> int \<Rightarrow> upload \<Rightarrow> error + upload" where
  "markChunk now chunkIndex u =
     (if chunkIndex < 0 \<or> js_ge chunkIndex (totalChunks u) then Inl chunk_out_of_range
      else
        (let received = (if chunkIndex |\<in>| receivedChunks u then receivedChunks u
                         else finsert chunkIndex (receivedChunks u))
         in Inr (u\<lparr>receivedChunks := received,
                   receivedCount := Some (Num (int (fcard received))),
                   status := ''active'',
                   updatedAt := now\<rparr>)))"

record chunk_result =
  c_upload :: upload
  completed :: bool

definition chunk_result_of :: "upload \<Rightarrow> chunk_result" where
  "chunk_result_of u =
     (let decorated = decorateUpload u
      in \<lparr>c_upload = decorated, completed = (missingChunks decorated = Some [])\<rparr>)"

definition recordChunk_mutator ::
    "string \<Rightarrow> string \<Rightarrow> string \<Rightarrow> int \<Rightarrow> state \<Rightarrow> (error + upload) \<times> state" where
  "recordChunk_mutator now k uid chunkIndex st =
     (case find_upload st k uid of
        Inl e \<Rightarrow> (Inl e, st)
      | Inr u \<Rightarrow>
          (case markChunk now chunkIndex u of
             Inl e \<Rightarrow> (Inl e, st)
           | Inr u' \<Rightarrow>
               (Inr u', modify_user k (\<lambda>r. r\<lparr>uploads := AList.update uid u' (uploads r)\<rparr>) st)))"

definition recordChunk ::
    "string \<Rightarrow> string \<Rightarrow> string \<Rightarrow> int \<Rightarrow> manager \<Rightarrow> (error + chunk_result) \<times> manager" where
  "recordChunk now k uid chunkIndex m =
     (case memory_upload m k uid of
        Some u \<Rightarrow>
          (case markChunk now chunkIndex u of
             Inl e \<Rightarrow> (Inl e, m)
           | Inr u' \<Rightarrow>
               (Inr (chunk_result_of u'),
                m\<lparr>ephemeral := modify_bucket k (AList.update uid u') (ephemeral m)\<rparr>))
      | None \<Rightarrow>
          (case withState (recordChunk_mutator now k uid chunkIndex) (store m) of
             (Inl e, ds) \<Rightarrow> (Inl e, m\<lparr>store := ds\<rparr>)
           | (Inr u', ds) \<Rightarrow> (Inr (chunk_result_of u'), m\<lparr>store := ds\<rparr>)))"

definition updateStatus_mutator ::
    "string \<Rightarrow> string \<Rightarrow> string \<Rightarrow> string \<Rightarrow> state \<Rightarrow> (error + upload) \<times> state" where
  "updateStatus_mutator now k uid newStatus st =
     (case find_upload st k uid of
        Inl e \<Rightarrow> (Inl e, st)
      | Inr u \<Rightarrow>
          (let u' = u\<lparr>status := newStatus, updatedAt := now\<rparr>
           in (Inr u', modify_user k (\<lambda>r. r\<lparr>uploads := AList.update uid u' (uploads r)\<rparr>) st)))"

definition updateStatus ::
    "string \<Rightarrow> string \<Rightarrow> string \<Rightarrow> string \<Rightarrow> manager \<Rightarrow> (error + upload) \<times> manager" where
  "updateStatus now k uid newStatus m =
     (case memory_upload m k uid of
        Some u \<Rightarrow>
          (let u' = u\<lparr>status := newStatus, updatedAt := now\<rparr>
           in (Inr (decorateUpload u'),
               m\<lparr>ephemeral := modify_bucket k (AList.update uid u') (ephemeral m)\<rparr>))
      | None \<Rightarrow>
          (case withState (updateStatus_mutator now k uid newStatus) (store m) of
             (Inl e, ds) \<Rightarrow> (Inl e, m\<lparr>store := ds\<rparr>)
           | (Inr u', ds) \<Rightarrow> (Inr (decorateUpload u'), m\<lparr>store := ds\<rparr>)))"

subsection \<open>History: finalizeUpload, removeUpload, clearHistory\<close>

definition toHistoryEntry :: "string \<Rightarrow> upload \<Rightarrow> history_entry" where
  "toHistoryEntry now u =
     \<lparr>h_id = upload_id u, h_fileName = fileName u, h_fileSize = fileSize u,
      h_completedAt = (case completedAt u of
                         None \<Rightarrow> now
                       | Some t \<Rightarrow> if t = [] then now else t),
      h_chunkSize = chunkSize u, h_totalChunks = totalChunks u,
      h_persist = (persist u \<noteq> False)\<rparr>"

text \<open>
  \<open>user.history.unshift(entry); if (user.history.length > 200)
  user.history = user.history.slice(0, 200);\<close>
\<close>

definition push_history :: "history_entry \<Rightarrow> user_record \<Rightarrow> user_record" where
  "push_history h r =
     (let hs = h # history r
      in r\<lparr>history := (if length hs > 200 then take 200 hs else hs)\<rparr>)"

text \<open>
  The mutator of the memory path of \<open>finalizeUpload\<close> and \<open>removeUpload\<close>:
  \<open>const user = this._ensureUserRecord(state, userKey); user.history.unshift(...)\<close>.
  The flag returned says that the history is that of a built-in object.
\<close>

definition history_mutator ::
    "string \<Rightarrow> string \<Rightarrow> history_entry \<Rightarrow> state \<Rightarrow> (error + bool) \<times> state" where
  "history_mutator now k entry st =
     (Inr (inherited_user st k),
      modify_user k (push_history entry) (ensureUserRecord now k st))"

definition finalizeUpload_mutator ::
    "string \<Rightarrow> string \<Rightarrow> string \<Rightarrow> state \<Rightarrow> (error + upload) \<times> state" where
  "finalizeUpload_mutator now k uid st =
     (case find_upload st k uid of
        Inl e \<Rightarrow> (Inl e, st)
      | Inr u \<Rightarrow>
          (let u' = u\<lparr>status := ''completed'', completedAt := Some now\<rparr>
           in (Inr u',
               modify_user k
                 (\<lambda>r. let r' = push_history (toHistoryEntry now u') r
                      in r'\<lparr>uploads := AList.delete uid (uploads r')\<rparr>) st)))"

definition finalizeUpload ::
    "string \<Rightarrow> string \<Rightarrow> string \<Rightarrow> manager \<Rightarrow> (error + upload) \<times> manager" where
  "finalizeUpload now k uid m =
     (case memory_upload m k uid of
        Some u \<Rightarrow>
          (let u' = u\<lparr>status := ''completed'', completedAt := Some now\<rparr>;
               m' = m\<lparr>ephemeral := modify_bucket k (AList.delete uid) (ephemeral m)\<rparr>
           in case withState (history_mutator now k (toHistoryEntry now u')) (store m') of
                (Inl e, ds) \<Rightarrow> (Inl e, m'\<lparr>store := ds\<rparr>)
              | (Inr off, ds) \<Rightarrow>
                  (Inr (decorateUpload u'), m'\<lparr>store := (if off then outside ds else ds)\<rparr>))
      | None \<Rightarrow>
          (case withState (finalizeUpload_mutator now k uid) (store m) of
             (Inl e, ds) \<Rightarrow> (Inl e, m\<lparr>store := ds\<rparr>)
           | (Inr u', ds) \<Rightarrow> (Inr (decorateUpload u'), m\<lparr>store := ds\<rparr>)))"

definition removeUpload_mutator ::
    "string \<Rightarrow> string \<Rightarrow> string \<Rightarrow> bool \<Rightarrow> state \<Rightarrow> (error + upload) \<times> state" where
  "removeUpload_mutator now k uid forget st =
     (case find_upload st k uid of
        Inl e \<Rightarrow> (Inl e, st)
      | Inr u \<Rightarrow>
          (Inr u,
           modify_user k
             (\<lambda>r. let r' = (if \<not> forget then push_history (toHistoryEntry now u) r else r)
                  in r'\<lparr>uploads := AList.delete uid (uploads r')\<rparr>) st))"

definition removeUpload ::
    "string \<Rightarrow> string \<Rightarrow> string \<Rightarrow> bool \<Rightarrow> manager \<Rightarrow> (error + upload) \<times> manager" where
  "removeUpload now k uid forget m =
     (case memory_upload m k uid of
        Some u \<Rightarrow>
          (let m' = m\<lparr>ephemeral := modify_bucket k (AList.delete uid) (ephemeral m)\<rparr>
           in if \<not> forget then
                (case withState (history_mutator now k (toHistoryEntry now u)) (store m') of
                   (Inl e, ds) \<Rightarrow> (Inl e, m'\<lparr>store := ds\<rparr>)
                 | (Inr off, ds) \<Rightarrow>
                     (Inr (decorateUpload u), m'\<lparr>store := (if off then outside ds else ds)\<rparr>))
              else (Inr (decorateUpload u), m'))
      | None \<Rightarrow>
          (case withState (removeUpload_mutator now k uid forget) (store m) of
             (Inl e, ds) \<Rightarrow> (Inl e, m\<lparr>store := ds\<rparr>)
           | (Inr u, ds) \<Rightarrow> (Inr (decorateUpload u), m\<lparr>store := ds\<rparr>)))"

text \<open>
  \<open>const user = state.users[userKey]; if (!user) throw new Error('user_not_found');
  user.history = []; return [];\<close>
  The flag returned says that the assignment was to a built-in object.
\<close>

definition clearHistory_mutator :: "string \<Rightarrow> state \<Rightarrow> (error + bool) \<times> state" where
  "clearHistory_mutator k st =
     (if \<not> has_user st k then (Inl user_not_found, st)
      else (Inr (inherited_user st k), modify_user k (\<lambda>r. r\<lparr>history := []\<rparr>) st))"

definition clearHistory :: "string \<Rightarrow> manager \<Rightarrow> (error + history_entry list) \<times> manager" where
  "clearHistory k m =
     (case withState (clearHistory_mutator k) (store m) of
        (Inl e, ds) \<Rightarrow> (Inl e, m\<lparr>store := ds\<rparr>)
      | (Inr off, ds) \<Rightarrow> (Inr [], m\<lparr>store := (if off then outside ds else ds)\<rparr>))"

subsection \<open>assembleFile\<close>
















subsection \<open>The constructor\<close>

text \<open>
  \<open>new UploadManager({rootDir, uploadDir, finalDir, statePath})\<close>, on a disk
  where the file at \<open>statePath\<close> is \<open>f\<close> and the rest of the tree is \<open>fs\<close>.
\<close>

definition new_manager :: "string \<Rightarrow> string \<Rightarrow> backing_file \<Rightarrow> filesystem \<Rightarrow> manager" where
  "new_manager ud fd f fs =
     \<lparr>uploadDir = ud, finalDir = fd, store = \<lparr>backing = f, lock = Fulfilled\<rparr>,
      ephemeral = Map.empty, disk = fs\<rparr>"

definition empty_disk :: filesystem where
  "empty_disk = \<lparr>dirs = {}, files = Map.empty\<rparr>"

section \<open>HTTP surface: POST /api/uploads (server.js)\<close>

text \<open>
  The body of the request after destructuring: \<open>userKey\<close> and \<open>fileName\<close> as
  sent, \<open>Number(fileSize)\<close> and \<open>Number(chunkSize)\<close> (finite or not), and
  \<open>persist\<close> (absent, a boolean, or a string).
\<close>

datatype wire_number = Finite int | NotFinite

datatype wire_flag = FlagAbsent | FlagBool bool | FlagText string

record create_request =
  b_userKey :: "string option"
  b_fileName :: "string option"
  b_fileSize :: wire_number
  b_chunkSize :: wire_number
  b_persist :: wire_flag

text \<open>\<open>persist !== false && persist !== 'false'\<close>, with the default \<open>true\<close>.\<close>

fun persist_flag :: "wire_flag \<Rightarrow> bool" where
  "persist_flag FlagAbsent = True"
| "persist_flag (FlagBool b) = b"
| "persist_flag (FlagText s) = (s \<noteq> ''false'')"

definition post_uploads ::
    "string \<Rightarrow> string \<Rightarrow> create_request \<Rightarrow> manager \<Rightarrow> (error + upload) \<times> manager" where
  "post_uploads now uploadId req m =
     (case (b_userKey req, b_fileName req) of
        (Some k, Some name) \<Rightarrow>
          if k = [] \<or> name = [] then (Inl missing_fields, m)
          else
            (case (b_fileSize req, b_chunkSize req) of
               (Finite fsize, Finite csize) \<Rightarrow>
                 if fsize \<le> 0 \<or> csize \<le> 0 then (Inl invalid_sizes, m)
                 else createUpload now uploadId k name fsize csize
                        (Some (persist_flag (b_persist req))) m
             | (Finite fsize, NotFinite) \<Rightarrow> (Inl invalid_sizes, m)
             | (NotFinite, c) \<Rightarrow> (Inl invalid_sizes, m))
      | (Some k, None) \<Rightarrow> (Inl missing_fields, m)
      | (None, n) \<Rightarrow> (Inl missing_fields, m))"

section \<open>Observations used to state the properties\<close>

text \<open>
  The metadata the manager holds for an upload: the one in the user's bucket, else the
  one a read of the backing file finds (the order of \<open>getUpload\<close>).
\<close>

definition held_upload :: "manager \<Rightarrow> string \<Rightarrow> string \<Rightarrow> upload option" where
  "held_upload m k uid =
     (case memory_upload m k uid of
        Some u \<Rightarrow> Some u
      | None \<Rightarrow>
          (case read_file (backing (store m)) of
             Inl e \<Rightarrow> None
           | Inr st \<Rightarrow> stored_upload st k uid))"

text \<open>The history of a user, as a read of the backing file finds it.\<close>

definition history_of :: "manager \<Rightarrow> string \<Rightarrow> history_entry list option" where
  "history_of m k =
     (case read_file (backing (store m)) of
        Inl e \<Rightarrow> None
      | Inr st \<Rightarrow> map_option history (users st k))"

section \<open>Objects and references\<close>

text \<open>
  Whether a returned upload shares an object with a stored one cannot be seen on
  values. Here the upload objects live in a store of objects: an upload object holds
  its scalar fields and a reference to its \<open>receivedChunks\<close> object, which is an
  object of its own. (The \<open>missingChunks\<close> array is built by \<open>_missingChunks\<close> for
  the one clone that receives it, and is kept as a value.) A new object takes the
  next unused reference.
\<close>

type_synonym ref = nat

record upload_object =
  o_upload_id :: string
  o_userKey :: string
  o_fileName :: string
  o_fileSize :: int
  o_chunkSize :: int
  o_totalChunks :: jsnum
  o_persist :: bool
  o_status :: string
  o_receivedChunks :: ref
  o_receivedCount :: "jsnum option"
  o_createdAt :: string
  o_updatedAt :: string
  o_completedAt :: "string option"
  o_missingChunks :: "int list option"

record heap =
  upload_objects :: "ref \<rightharpoonup> upload_object"
  chunk_objects :: "ref \<rightharpoonup> int fset"
  next_ref :: ref

text \<open>The value of an upload object: its fields, with the \<open>receivedChunks\<close> it refers to.\<close>

definition object_value :: "upload_object \<Rightarrow> int fset \<Rightarrow> upload" where
  "object_value ob received =
     \<lparr>upload_id = o_upload_id ob, userKey = o_userKey ob, fileName = o_fileName ob,
      fileSize = o_fileSize ob, chunkSize = o_chunkSize ob, totalChunks = o_totalChunks ob,
      persist = o_persist ob, status = o_status ob, receivedChunks = received,
      receivedCount = o_receivedCount ob, createdAt = o_createdAt ob,
      updatedAt = o_updatedAt ob, completedAt = o_completedAt ob,
      missingChunks = o_missingChunks ob\<rparr>"

definition view :: "heap \<Rightarrow> ref \<Rightarrow> upload option" where
  "view h a =
     (case upload_objects h a of
        None \<Rightarrow> None
      | Some ob \<Rightarrow>
          (case chunk_objects h (o_receivedChunks ob) of
             None \<Rightarrow> None
           | Some received \<Rightarrow> Some (object_value ob received)))"

definition new_chunks :: "int fset \<Rightarrow> heap \<Rightarrow> ref \<times> heap" where
  "new_chunks received h =
     (next_ref h,
      h\<lparr>chunk_objects := (chunk_objects h)(next_ref h \<mapsto> received),
        next_ref := Suc (next_ref h)\<rparr>)"

definition new_upload :: "upload_object \<Rightarrow> heap \<Rightarrow> ref \<times> heap" where
  "new_upload ob h =
     (next_ref h,
      h\<lparr>upload_objects := (upload_objects h)(next_ref h \<mapsto> ob),
        next_ref := Suc (next_ref h)\<rparr>)"

text \<open>
  \<open>_deepClone\<close> on an upload object: \<open>JSON.parse\<close> builds a new object for the
  upload and a new object for its \<open>receivedChunks\<close>. The result is \<open>None\<close> on a
  reference to no object, which a JavaScript program cannot hold.
\<close>

definition deepClone_object :: "ref \<Rightarrow> heap \<Rightarrow> (ref \<times> heap) option" where
  "deepClone_object a h =
     (case upload_objects h a of
        None \<Rightarrow> None
      | Some ob \<Rightarrow>
          (case chunk_objects h (o_receivedChunks ob) of
             None \<Rightarrow> None
           | Some received \<Rightarrow>
               (let (c, h1) = new_chunks received h
                in Some (new_upload
                           (ob\<lparr>o_totalChunks := json_num (o_totalChunks ob),
                               o_receivedCount := map_option json_num (o_receivedCount ob),
                               o_receivedChunks := c\<rparr>) h1))))"

text \<open>\<open>_missingChunks\<close> only reads the object.\<close>

definition missingChunks_object :: "ref \<Rightarrow> heap \<Rightarrow> int list option" where
  "missingChunks_object a h =
     (case view h a of None \<Rightarrow> None | Some u \<Rightarrow> missingChunks_of u)"

definition decorate_object :: "ref \<Rightarrow> heap \<Rightarrow> (ref \<times> heap) option" where
  "decorate_object a h =
     (case deepClone_object a h of
        None \<Rightarrow> None
      | Some (clone, h1) \<Rightarrow>
          (case upload_objects h1 clone of
             None \<Rightarrow> None
           | Some ob \<Rightarrow>
               (let missing = (case missingChunks_object clone h1 of
                                 None \<Rightarrow> []
                               | Some ms \<Rightarrow> ms)
                in Some (clone,
                         h1\<lparr>upload_objects := (upload_objects h1)(clone \<mapsto>
                              ob\<lparr>o_missingChunks := Some missing,
                                 o_receivedCount :=
                                   Some (js_minus (o_totalChunks ob) (length missing))\<rparr>)\<rparr>))))"

text \<open>Every reference in use, also inside an upload object, is below the next one.\<close>

definition heap_ok :: "heap \<Rightarrow> bool" where
  "heap_ok h =
     ((\<forall>a ob. upload_objects h a = Some ob \<longrightarrow> a < next_ref h \<and> o_receivedChunks ob < next_ref h)
      \<and> (\<forall>c received. chunk_objects h c = Some received \<longrightarrow> c < next_ref h))"

text \<open>
  Any assignment to the fields of the upload object at \<open>a\<close>, and any change of the
  \<open>receivedChunks\<close> object at \<open>c\<close>.
\<close>

definition mutate :: "ref \<Rightarrow> upload_object \<Rightarrow> ref \<Rightarrow> int fset \<Rightarrow> heap \<Rightarrow> heap" where
  "mutate a ob c received h =
     h\<lparr>upload_objects := (upload_objects h)(a \<mapsto> ob),
       chunk_objects := (chunk_objects h)(c \<mapsto> received)\<rparr>"

section \<open>Reachable managers\<close>

text \<open>
  The managers that a run of the server can reach: it starts on a data directory with
  no state file, may be restarted on the files it left, and every operation of the
  manager may be called with any arguments. The handlers and \<open>assembleFile\<close> also
  write files other than the state file.
\<close>

inductive reachable :: "manager \<Rightarrow> bool" where
  start: "reachable (new_manager ud fd Absent fs)"
| restart: "reachable m \<Longrightarrow>
            reachable (new_manager (uploadDir m) (finalDir m) (backing (store m)) (disk m))"
| other_files: "reachable m \<Longrightarrow> reachable (m\<lparr>disk := fs\<rparr>)"
| identify: "reachable m \<Longrightarrow> reachable (snd (identifyUser now ids requestedKey m))"
| snapshot: "reachable m \<Longrightarrow> reachable (snd (getUserSnapshot k m))"
| create: "reachable m \<Longrightarrow>
           reachable (snd (createUpload now uploadId k name fsize csize persistArg m))"
| get: "reachable m \<Longrightarrow> reachable (snd (getUpload k uid m))"
| chunk: "reachable m \<Longrightarrow> reachable (snd (recordChunk now k uid i m))"
| set_status: "reachable m \<Longrightarrow> reachable (snd (updateStatus now k uid newStatus m))"
| finalize: "reachable m \<Longrightarrow> reachable (snd (finalizeUpload now k uid m))"
| remove: "reachable m \<Longrightarrow> reachable (snd (removeUpload now k uid forget m))"
| clear: "reachable m \<Longrightarrow> reachable (snd (clearHistory k m))"

text \<open>
  An upload as the manager stores it: no \<open>missingChunks\<close> field, and a
  \<open>receivedCount\<close> field.
\<close>

definition stored_shape :: "upload \<Rightarrow> bool" where
  "stored_shape u = (missingChunks u = None \<and> receivedCount u \<noteq> None)"

definition doc_shape :: "state \<Rightarrow> bool" where
  "doc_shape st =
     (\<forall>k r uid u. users st k = Some r \<longrightarrow> (uid, u) \<in> set (uploads r) \<longrightarrow> stored_shape u)"

fun file_shape :: "backing_file \<Rightarrow> bool" where
  "file_shape (Content st) = doc_shape st"
| "file_shape Absent = True"
| "file_shape Unreadable = True"

section \<open>Concrete inputs\<close>

text \<open>
  A manager on a fresh data directory, and scenario S1 of the specification (a file of
  10 bytes in chunks of 6) just after \<open>createUpload\<close>, persistent and ephemeral.
\<close>

definition manager0 :: manager where
  "manager0 = new_manager ''/data/uploads'' ''/data/files'' Absent empty_disk"

definition demo_persistent :: manager where
  "demo_persistent = snd (createUpload ''t0'' ''F1'' ''alice'' ''a.bin'' 10 6 None manager0)"

definition demo_memory :: manager where
  "demo_memory = snd (createUpload ''t0'' ''F1'' ''alice'' ''a.bin'' 10 6 (Some False) manager0)"

definition demo_upload :: upload where
  "demo_upload =
     \<lparr>upload_id = ''F1'', userKey = ''alice'', fileName = ''a.bin'', fileSize = 10,
      chunkSize = 6, totalChunks = Num 2, persist = True, status = ''active'',
      receivedChunks = {||}, receivedCount = Some (Num 0), createdAt = ''t0'',
      updatedAt = ''t0'', completedAt = None, missingChunks = None\<rparr>"





text \<open>
  An object store holding that upload, with chunk 0 received, as an object of the
  ephemeral bucket: the upload object at reference 0, its \<open>receivedChunks\<close> at 1.
\<close>

definition demo_object :: upload_object where
  "demo_object =
     \<lparr>o_upload_id = ''F1'', o_userKey = ''alice'', o_fileName = ''a.bin'', o_fileSize = 10,
      o_chunkSize = 6, o_totalChunks = Num 2, o_persist = False, o_status = ''active'',
      o_receivedChunks = 1, o_receivedCount = Some (Num 1), o_createdAt = ''t0'',
      o_updatedAt = ''t1'', o_completedAt = None, o_missingChunks = None\<rparr>"

definition demo_heap :: heap where
  "demo_heap =
     \<lparr>upload_objects = [0 \<mapsto> demo_object], chunk_objects = [1 \<mapsto> {|0|}], next_ref = 2\<rparr>"

section \<open>Basic facts\<close>

subsection \<open>The rounded quotient\<close>

lemma round_half_even_le:
  assumes "0 < d" and "n \<le> K * d"
  shows "round_half_even n d \<le> K"
proof -
  have dec: "n = (n div d) * d + n mod d" by simp
  have r: "0 \<le> n mod d" "n mod d < d" using assms(1) by simp_all
  show ?thesis
  proof (cases "n mod d = 0")
    case True
    then have "(n div d) * d \<le> K * d" using dec assms(2) by simp
    then have "n div d \<le> K" using assms(1) by simp
    then show ?thesis using True assms(1) by (simp add: round_half_even_def Let_def)
  next
    case False
    then have "(n div d) * d < K * d" using dec assms(2) r by linarith
    then have "n div d < K" using assms(1) by simp
    then show ?thesis by (simp add: round_half_even_def Let_def)
  qed
qed

lemma round_half_even_gt:
  assumes "0 < d" and "J * d \<le> n" and "d < 2 * (n - J * d)"
  shows "J < round_half_even n d"
proof -
  have "(J * d) div d \<le> n div d" using assms(1,2) by (intro zdiv_mono1)
  then have q: "J \<le> n div d" using assms(1) by simp
  show ?thesis
  proof (cases "J = n div d")
    case True
    then have "n mod d = n - J * d" by (simp add: minus_div_mult_eq_mod)
    then show ?thesis using True assms(3) by (simp add: round_half_even_def Let_def)
  next
    case False
    then have "J < n div d" using q by simp
    then show ?thesis by (simp add: round_half_even_def Let_def)
  qed
qed

lemma ceil_between:
  fixes c m p :: int
  assumes "0 < p" and "(c - 1) * p < m" and "m \<le> c * p"
  shows "- ((- m) div p) = c"
proof -
  have "\<lceil>real_of_int m / real_of_int p\<rceil> = c"
  proof (rule ceiling_unique)
    have "real_of_int ((c - 1) * p) < real_of_int m" using assms(2) by linarith
    then have "(real_of_int c - 1) * real_of_int p < real_of_int m" by simp
    then show "real_of_int c - 1 < real_of_int m / real_of_int p"
      using assms(1) by (simp add: pos_less_divide_eq)
    have "real_of_int m \<le> real_of_int (c * p)" using assms(3) by linarith
    then show "real_of_int m / real_of_int p \<le> real_of_int c"
      using assms(1) by (simp add: pos_divide_le_eq)
  qed
  then show ?thesis by (simp add: ceiling_divide_eq_div)
qed

lemma ceil_bounds:
  fixes a b :: int
  assumes "0 < b"
  shows "(- ((- a) div b) - 1) * b < a" and "a \<le> - ((- a) div b) * b"
proof -
  define c where "c = - ((- a) div b)"
  have "c = \<lceil>real_of_int a / real_of_int b\<rceil>" by (simp add: c_def ceiling_divide_eq_div)
  then have lo: "real_of_int c - 1 < real_of_int a / real_of_int b"
    and hi: "real_of_int a / real_of_int b \<le> real_of_int c" by linarith+
  have "(real_of_int c - 1) * real_of_int b < real_of_int a"
    using lo assms by (simp add: pos_less_divide_eq)
  then have "real_of_int ((c - 1) * b) < real_of_int a" by simp
  then show "(- ((- a) div b) - 1) * b < a" unfolding c_def [symmetric] by linarith
  have "real_of_int a \<le> real_of_int c * real_of_int b"
    using hi assms by (simp add: pos_divide_le_eq)
  then have "real_of_int a \<le> real_of_int (c * b)" by simp
  then show "a \<le> - ((- a) div b) * b" unfolding c_def [symmetric] by linarith
qed

lemma binade_bounds:
  assumes "0 < a" and "0 < b"
  shows "scaled_den b (binade a b) \<le> scaled_num a (binade a b)"
    and "bitlen a - bitlen b - 1 \<le> binade a b"
    and "binade a b \<le> bitlen a - bitlen b"
proof -
  define t where "t = bitlen a - bitlen b"
  have la: "2 ^ nat (bitlen a - 1) \<le> a" using bitlen_bounds [OF assms(1)] by simp
  have lb: "b < 2 ^ nat (bitlen b)" using bitlen_bounds [OF assms(2)] by simp
  have la1: "1 \<le> bitlen a" using assms(1) bitlen_eq_zero_iff [of a] bitlen_nonneg [of a] by linarith
  have lb1: "1 \<le> bitlen b" using assms(2) bitlen_eq_zero_iff [of b] bitlen_nonneg [of b] by linarith
  have low: "scaled_den b (t - 1) \<le> scaled_num a (t - 1)"
  proof (cases "t - 1 < 0")
    case True
    have "nat (bitlen b) = nat (bitlen a - 1) + nat (- (t - 1))"
      using True la1 lb1 by (simp add: t_def nat_add_distrib [symmetric])
    then have "(2::int) ^ nat (bitlen b) = 2 ^ nat (bitlen a - 1) * 2 ^ nat (- (t - 1))"
      by (simp add: power_add)
    also have "\<dots> \<le> a * 2 ^ nat (- (t - 1))" using la by (simp add: mult_right_mono)
    finally show ?thesis using True lb by (simp add: scaled_den_def scaled_num_def)
  next
    case False
    have "nat (bitlen a - 1) = nat (bitlen b) + nat (t - 1)"
      using False la1 lb1 by (simp add: t_def nat_add_distrib [symmetric])
    then have eq: "(2::int) ^ nat (bitlen a - 1) = 2 ^ nat (bitlen b) * 2 ^ nat (t - 1)"
      by (simp add: power_add)
    have "b * 2 ^ nat (t - 1) \<le> 2 ^ nat (bitlen b) * 2 ^ nat (t - 1)"
      using lb by (intro mult_right_mono) simp_all
    also have "\<dots> = 2 ^ nat (bitlen a - 1)" by (simp only: eq)
    also have "\<dots> \<le> a" by (rule la)
    finally show ?thesis using False by (simp add: scaled_den_def scaled_num_def)
  qed
  show "scaled_den b (binade a b) \<le> scaled_num a (binade a b)"
    using low by (simp add: binade_def Let_def t_def)
  show "bitlen a - bitlen b - 1 \<le> binade a b" by (simp add: binade_def Let_def)
  show "binade a b \<le> bitlen a - bitlen b" by (simp add: binade_def Let_def)
qed

lemma js_ceil_div_exact:
  assumes a: "0 < a" "a < 2 ^ 53" and b: "0 < b" "b < 2 ^ 53"
  shows "js_ceil_div a b = Num (- ((- a) div b))"
proof -
  define t where "t = binade a b"
  define s where "s = nat (52 - t)"
  define c where "c = - ((- a) div b)"
  have la: "bitlen a \<le> 53" using a(2) by (simp add: bitlen_le_iff_power)
  have lb: "bitlen b \<le> 53" using b(2) by (simp add: bitlen_le_iff_power)
  have la1: "1 \<le> bitlen a" using a(1) bitlen_eq_zero_iff [of a] bitlen_nonneg [of a] by linarith
  have lb1: "1 \<le> bitlen b" using b(1) bitlen_eq_zero_iff [of b] bitlen_nonneg [of b] by linarith
  have t52: "t \<le> 52" and tlow: "- 53 \<le> t"
    using binade_bounds(2,3) [OF a(1) b(1)] la lb la1 lb1 by (simp_all add: t_def)
  have e: "max (binade a b - 52) (- 1074) = t - 52" using tlow by (simp add: t_def)
  have num: "scaled_num a (t - 52) = a * 2 ^ s"
    using t52 by (cases "t = 52") (simp_all add: scaled_num_def s_def)
  have den: "scaled_den b (t - 52) = b"
    using t52 by (cases "t = 52") (simp_all add: scaled_den_def)
  have scale: "2 ^ 52 * b \<le> a * 2 ^ s"
  proof (cases "t < 0")
    case True
    have "s = 52 + nat (- t)" using True by (simp add: s_def nat_add_distrib [symmetric])
    then have eq: "a * 2 ^ s = 2 ^ 52 * (a * 2 ^ nat (- t))" by (simp add: power_add)
    have "b \<le> a * 2 ^ nat (- t)"
      using binade_bounds(1) [OF a(1) b(1)] True by (simp add: t_def scaled_den_def scaled_num_def)
    then have "2 ^ 52 * b \<le> 2 ^ 52 * (a * 2 ^ nat (- t))" by (intro mult_left_mono) simp_all
    then show ?thesis by (simp only: eq)
  next
    case False
    have "52 = nat t + s" using False t52 by (simp add: s_def nat_add_distrib [symmetric])
    then have eq: "(2::int) ^ 52 = 2 ^ nat t * 2 ^ s" by (simp only: power_add)
    have "b * 2 ^ nat t \<le> a"
      using binade_bounds(1) [OF a(1) b(1)] False by (simp add: t_def scaled_den_def scaled_num_def)
    then have "b * 2 ^ nat t * 2 ^ s \<le> a * 2 ^ s" by (intro mult_right_mono) simp_all
    moreover have "2 ^ 52 * b = b * 2 ^ nat t * 2 ^ s" by (simp only: eq) (simp add: algebra_simps)
    ultimately show ?thesis by (simp only:)
  qed
  have c_lo: "(c - 1) * b < a" and c_hi: "a \<le> c * b"
    using ceil_bounds [OF b(1), of a] by (simp_all add: c_def)
  define m where "m = round_half_even (a * 2 ^ s) b"
  have small: "b < 2 * 2 ^ s"
  proof -
    have "2 ^ 52 * b \<le> a * 2 ^ s" by (rule scale)
    also have "\<dots> < 2 ^ 53 * 2 ^ s" using a(2) by simp
    finally have "2 ^ 52 * b < 2 ^ 52 * (2 * 2 ^ s)" by simp
    then show ?thesis by simp
  qed
  have m_hi: "m \<le> c * 2 ^ s"
    unfolding m_def
  proof (rule round_half_even_le [OF b(1)])
    have "a * 2 ^ s \<le> (c * b) * 2 ^ s" using c_hi by (simp add: mult_right_mono)
    then show "a * 2 ^ s \<le> c * 2 ^ s * b" by (simp add: algebra_simps)
  qed
  have m_lo: "(c - 1) * 2 ^ s < m"
    unfolding m_def
  proof (rule round_half_even_gt [OF b(1)])
    have "((c - 1) * b) * 2 ^ s \<le> a * 2 ^ s" using c_lo by (simp add: mult_right_mono)
    then show "(c - 1) * 2 ^ s * b \<le> a * 2 ^ s" by (simp add: algebra_simps)
    have "1 \<le> a - (c - 1) * b" using c_lo by simp
    then have "1 * 2 ^ s \<le> (a - (c - 1) * b) * 2 ^ s" by (intro mult_right_mono) simp_all
    then have "2 ^ s \<le> a * 2 ^ s - (c - 1) * 2 ^ s * b" by (simp add: algebra_simps)
    then have "2 * 2 ^ s \<le> 2 * (a * 2 ^ s - (c - 1) * 2 ^ s * b)"
      by (intro mult_left_mono) simp_all
    with small show "b < 2 * (a * 2 ^ s - (c - 1) * 2 ^ s * b)" by (rule less_le_trans)
  qed
  have ceil: "ceil_double m (t - 52) = c"
  proof -
    have "- ((- m) div 2 ^ s) = c" by (rule ceil_between [OF _ m_lo m_hi]) simp
    then show ?thesis using t52 by (cases "t = 52") (simp_all add: ceil_double_def s_def)
  qed
  have no_overflow: "\<not> (0 \<le> t - 52 \<and> 2 ^ 1024 \<le> m * 2 ^ nat (t - 52))"
  proof
    assume ov: "0 \<le> t - 52 \<and> 2 ^ 1024 \<le> m * 2 ^ nat (t - 52)"
    then have "t = 52" using t52 by simp
    then have "s = 0" by (simp add: s_def)
    have "c \<le> a"
    proof (cases "c \<le> 1")
      case True
      then show ?thesis using a(1) by simp
    next
      case False
      then have "(c - 1) * 1 \<le> (c - 1) * b" using b(1) by (intro mult_left_mono) simp_all
      then show ?thesis using c_lo by simp
    qed
    then have "m < 2 ^ 53" using m_hi \<open>s = 0\<close> a(2) by simp
    also have "(2::int) ^ 53 \<le> 2 ^ 1024" by (rule power_increasing) simp_all
    finally show False using ov \<open>t = 52\<close> by simp
  qed
  have "double_quotient a b = Some (m, t - 52)"
    using no_overflow by (simp add: double_quotient_def Let_def e num den m_def)
  then show ?thesis using a(1) b(1) ceil by (simp add: js_ceil_div_def c_def)
qed

lemma js_ceil_div_ceiling:
  assumes "0 < a" "a < 2 ^ 53" "0 < b" "b < 2 ^ 53"
  shows "js_ceil_div a b = Num \<lceil>real_of_int a / real_of_int b\<rceil>"
  by (simp add: js_ceil_div_exact [OF assms] ceiling_divide_eq_div)

lemma js_ceil_div_10_6 [simp]: "js_ceil_div 10 6 = Num 2"
  by (simp add: js_ceil_div_exact)

lemma js_ceil_div_0 [simp]: "b \<noteq> 0 \<Longrightarrow> js_ceil_div 0 b = Num 0"
  by (simp add: js_ceil_div_def)

lemma not_inherited_alice [simp]: "\<not> inherited ''alice''"
  by (simp add: inherited_def object_prototype_names_def)

lemma inherited_constructor [simp]: "inherited ''constructor''"
  by (simp add: inherited_def object_prototype_names_def)


subsection \<open>Cloning, the store and the lookups\<close>

lemma json_num_idem [simp]: "json_num (json_num t) = json_num t"
  by (cases t) simp_all

lemma loop_bound_json_num: "loop_bound (json_num t) \<noteq> None"
  by (cases t) simp_all

lemma missingChunks_of_deepClone: "missingChunks_of (deepClone u) \<noteq> None"
proof -
  have "loop_bound (totalChunks (deepClone u)) \<noteq> None"
    by (simp add: deepClone_def loop_bound_json_num)
  then show ?thesis
    by (auto simp: missingChunks_of_def split: option.splits)
qed

lemma deepClone_idem [simp]: "deepClone (deepClone u) = deepClone u"
  by (simp add: deepClone_def option.map_comp comp_def)

lemma withState_Inr:
  assumes "withState f ds = (Inr v, ds')"
  shows "\<exists>st st'. lock ds = Fulfilled \<and> read_file (backing ds) = Inr st \<and> f st = (Inr v, st')
           \<and> ds' = write_file st' ds"
  using assms
  by (auto simp: withState_def split: lock_state.splits sum.splits prod.splits)

lemma withState_Inl:
  assumes "withState f ds = (Inl e, ds')"
  shows "backing ds' = backing ds"
  using assms
  by (auto simp: withState_def split: lock_state.splits sum.splits prod.splits)

lemma backing_outside [simp]: "backing (outside ds) = backing ds"
  by (simp add: outside_def)

lemma backing_flagged [simp]: "backing (if off then outside ds else ds) = backing ds"
  by simp

lemma withState_written:
  assumes "withState f ds = (Inr v, ds')"
  shows "\<exists>st st'. lock ds = Fulfilled \<and> read_file (backing ds) = Inr st \<and> f st = (Inr v, st')
           \<and> backing ds' = Content st' \<and> lock ds' = Fulfilled"
  using assms
  by (auto simp: withState_def write_file_def split: lock_state.splits sum.splits prod.splits)

lemma find_upload_Inr: "(find_upload st k uid = Inr u) = (stored_upload st k uid = Some u)"
  by (simp add: find_upload_def stored_upload_def split: option.splits)

lemma find_upload_stored: "stored_upload st k uid = Some u \<Longrightarrow> find_upload st k uid = Inr u"
  by (simp add: find_upload_Inr)

lemma find_upload_user: "users st k = None \<Longrightarrow> find_upload st k uid = Inl upload_not_found"
  by (simp add: find_upload_def)

lemma map_of_clone: "map_of (map (\<lambda>(k, u). (k, f u)) al) uid = map_option f (map_of al uid)"
  by (induction al) auto

lemma stored_upload_json_state:
  "stored_upload (json_state st) k uid = map_option deepClone (stored_upload st k uid)"
  by (simp add: stored_upload_def json_state_def deepClone_user_def map_of_clone split: option.splits)

lemma stored_upload_put:
  "stored_upload (modify_user k (\<lambda>r. r\<lparr>uploads := AList.update uid u (uploads r)\<rparr>) st) k uid
     = (if users st k = None then None else Some u)"
  by (simp add: stored_upload_def modify_user_def update_conv' split: option.splits)

lemma users_ensureUserRecord: "\<not> inherited k \<Longrightarrow> users (ensureUserRecord now k st) k \<noteq> None"
  by (simp add: ensureUserRecord_def has_user_def)


lemma memory_upload_put:
  "ephemeral m' = modify_bucket k (AList.update uid u) eph \<Longrightarrow>
   memory_upload m' k uid = (if eph k = None then None else Some u)"
  by (simp add: memory_upload_def modify_bucket_def update_conv' split: option.splits)

lemma ensureEphemeralUser_defined: "ensureEphemeralUser k eph k \<noteq> None"
  by (simp add: ensureEphemeralUser_def split: option.splits)


lemma totalChunks_decorateUpload: "totalChunks (decorateUpload u) = json_num (totalChunks u)"
  by (simp add: decorateUpload_def deepClone_def Let_def)

lemma createUpload_memory:
  assumes "createUpload now uid k name fsize csize (Some False) m = (r, m')"
  shows "\<exists>u. memory_upload m' k uid = Some u \<and> totalChunks u = js_ceil_div fsize csize
           \<and> r = Inr (decorateUpload u)"
proof -
  let ?base = "\<lparr>upload_id = uid, userKey = k, fileName = name, fileSize = fsize,
             chunkSize = csize, totalChunks = js_ceil_div fsize csize,
             persist = False, status = ''active'',
             receivedChunks = {||}, receivedCount = Some (Num 0),
             createdAt = now, updatedAt = now, completedAt = None, missingChunks = None\<rparr>"
  from assms have r: "r = Inr (decorateUpload ?base)"
    and e: "ephemeral m' = modify_bucket k (AList.update uid ?base) (ensureEphemeralUser k (ephemeral m))"
    by (auto simp: createUpload_def Let_def)
  from memory_upload_put [OF e] have "memory_upload m' k uid = Some ?base"
    by (simp add: ensureEphemeralUser_defined)
  with r show ?thesis by simp
qed

lemma createUpload_persistent:
  assumes "createUpload now uid k name fsize csize pa m = (Inr d, m')" and "pa \<noteq> Some False"
    and "\<not> inherited k" and "uid \<noteq> ''__proto__''"
  shows "\<exists>st u. read_file (backing (store m')) = Inr st \<and> stored_upload st k uid = Some u
           \<and> totalChunks u = json_num (js_ceil_div fsize csize)
           \<and> totalChunks d = json_num (js_ceil_div fsize csize)"
proof -
  let ?base = "\<lparr>upload_id = uid, userKey = k, fileName = name, fileSize = fsize,
             chunkSize = csize, totalChunks = js_ceil_div fsize csize,
             persist = True, status = ''active'',
             receivedChunks = {||}, receivedCount = Some (Num 0),
             createdAt = now, updatedAt = now, completedAt = None, missingChunks = None\<rparr>"
  from assms(1,2) obtain off ds
    where w: "withState (createUpload_mutator now k uid ?base) (store m) = (Inr off, ds)"
      and d: "d = decorateUpload ?base" and m': "backing (store m') = backing ds"
    by (auto simp: createUpload_def Let_def split: prod.splits sum.splits)
  from withState_written [OF w] obtain st st'
    where f: "createUpload_mutator now k uid ?base st = (Inr off, st')"
      and b: "backing ds = Content st'"
    by blast
  from f assms(3,4)
  have st': "st' = modify_user k (\<lambda>r. r\<lparr>uploads := AList.update uid ?base (uploads r)\<rparr>)
                     (ensureUserRecord now k st)"
    by (simp add: createUpload_mutator_def Let_def inherited_user_def)
  have "read_file (backing (store m')) = Inr (json_state st')"
    using m' b by simp
  moreover have "stored_upload (json_state st') k uid = Some (deepClone ?base)"
    using assms(3) by (simp add: st' stored_upload_json_state stored_upload_put users_ensureUserRecord)
  ultimately show ?thesis using d
    by (auto simp: totalChunks_decorateUpload deepClone_def)
qed

lemma deepClone_user_idem [simp]: "deepClone_user (deepClone_user r) = deepClone_user r"
  by (simp add: deepClone_user_def json_entry_def comp_def case_prod_unfold)

lemma json_state_idem [simp]: "json_state (json_state st) = json_state st"
  by (simp add: json_state_def option.map_comp comp_def)

lemma read_file_normal: "read_file b = Inr st \<Longrightarrow> json_state st = st"
proof (cases b)
  case Absent
  then show "read_file b = Inr st \<Longrightarrow> json_state st = st"
    by (auto simp: json_state_def)
qed auto

lemma stored_upload_normal:
  assumes "read_file b = Inr st" and "stored_upload st k uid = Some u"
  shows "deepClone u = u"
proof -
  from assms(1) have "json_state st = st" by (rule read_file_normal)
  then have "stored_upload (json_state st) k uid = Some u" using assms(2) by simp
  then show ?thesis using assms(2) by (simp add: stored_upload_json_state)
qed

lemma markChunk_Inr:
  assumes "markChunk now i u = Inr u'"
  shows "\<not> i < 0 \<and> \<not> js_ge i (totalChunks u)
       \<and> u' = u\<lparr>receivedChunks := finsert i (receivedChunks u),
                 receivedCount := Some (Num (int (fcard (finsert i (receivedChunks u))))),
                 status := ''active'', updatedAt := now\<rparr>"
  using assms by (auto simp: markChunk_def Let_def finsert_absorb split: if_splits)

lemma markChunk_again:
  assumes "markChunk t1 i u = Inr u'"
  shows "markChunk t2 i u' = Inr (u'\<lparr>updatedAt := t2\<rparr>)"
  using markChunk_Inr [OF assms] by (simp add: markChunk_def Let_def)

lemma markChunk_normal:
  assumes "markChunk now i u = Inr u'" and "deepClone u = u"
  shows "deepClone u' = u'"
  using markChunk_Inr [OF assms(1)] assms(2)
  by (cases u) (simp add: deepClone_def)

lemma decorateUpload_updatedAt:
  "decorateUpload (u\<lparr>updatedAt := t\<rparr>) = (decorateUpload u)\<lparr>updatedAt := t\<rparr>"
  by (cases u) (simp add: decorateUpload_def deepClone_def missingChunks_of_def Let_def
      split: option.splits)

lemma chunk_result_updatedAt:
  "chunk_result_of (u\<lparr>updatedAt := t\<rparr>)
     = \<lparr>c_upload = (c_upload (chunk_result_of u))\<lparr>updatedAt := t\<rparr>,
        completed = completed (chunk_result_of u)\<rparr>"
  by (simp add: chunk_result_of_def decorateUpload_updatedAt Let_def)

lemma memory_upload_bucket: "memory_upload m k uid = Some u \<Longrightarrow> ephemeral m k \<noteq> None"
  by (auto simp: memory_upload_def split: option.splits)

lemma c7_memory:
  assumes "memory_upload m k uid = Some u" and "recordChunk t1 k uid i m = (Inr r1, m1)"
  shows "\<exists>u1. memory_upload m1 k uid = Some u1 \<and> i |\<in>| receivedChunks u1
            \<and> r1 = chunk_result_of u1
            \<and> recordChunk t2 k uid i m1 =
                (Inr (chunk_result_of (u1\<lparr>updatedAt := t2\<rparr>)),
                 m1\<lparr>ephemeral := modify_bucket k (AList.update uid (u1\<lparr>updatedAt := t2\<rparr>)) (ephemeral m1)\<rparr>)"
proof -
  from assms obtain u' where mk: "markChunk t1 i u = Inr u'" and r1: "r1 = chunk_result_of u'"
    and m1: "m1 = m\<lparr>ephemeral := modify_bucket k (AList.update uid u') (ephemeral m)\<rparr>"
    by (auto simp: recordChunk_def split: sum.splits)
  from m1 have "ephemeral m1 = modify_bucket k (AList.update uid u') (ephemeral m)" by simp
  from memory_upload_put [OF this] memory_upload_bucket [OF assms(1)]
  have mu: "memory_upload m1 k uid = Some u'" by simp
  from markChunk_Inr [OF mk] have "i |\<in>| receivedChunks u'" by simp
  with mu r1 markChunk_again [OF mk, of t2] show ?thesis
    by (simp add: recordChunk_def)
qed


lemma markChunk_range:
  "totalChunks u = Num n \<Longrightarrow> i < 0 \<or> n \<le> i \<Longrightarrow> markChunk now i u = Inl chunk_out_of_range"
  by (auto simp: markChunk_def)

lemma demo_persistent_store:
  "store demo_persistent =
     \<lparr>backing = Content \<lparr>users = [''alice'' \<mapsto>
          \<lparr>key = ''alice'', u_createdAt = ''t0'', uploads = [(''F1'', demo_upload)],
           history = []\<rparr>]\<rparr>,
      lock = Fulfilled\<rparr>"
  by (simp add: demo_persistent_def manager0_def createUpload_def Let_def new_manager_def withState_def
      write_file_def modify_user_def ensureUserRecord_def new_user_def demo_upload_def
      createUpload_mutator_def inherited_user_def has_user_def)

lemma demo_persistent_ephemeral: "ephemeral demo_persistent = Map.empty"
  by (simp add: demo_persistent_def manager0_def createUpload_def Let_def new_manager_def withState_def
      createUpload_mutator_def inherited_user_def)

lemma demo_persistent_lock: "lock (store demo_persistent) = Fulfilled"
  by (simp add: demo_persistent_store)

lemma demo_persistent_held: "held_upload demo_persistent ''alice'' ''F1'' = Some demo_upload"
  by (simp add: held_upload_def memory_upload_def demo_persistent_ephemeral demo_persistent_store
      stored_upload_def json_state_def deepClone_user_def deepClone_def demo_upload_def)

lemma demo_memory_ephemeral:
  "ephemeral demo_memory = [''alice'' \<mapsto> [(''F1'', demo_upload\<lparr>persist := False\<rparr>)]]"
  by (simp add: demo_memory_def manager0_def createUpload_def Let_def new_manager_def modify_bucket_def
      ensureEphemeralUser_def demo_upload_def)

lemma demo_memory_store: "store demo_memory = \<lparr>backing = Absent, lock = Fulfilled\<rparr>"
  by (simp add: demo_memory_def manager0_def createUpload_def Let_def new_manager_def)

lemma withState_ok:
  "lock ds = Fulfilled \<Longrightarrow> read_file (backing ds) = Inr st \<Longrightarrow> f st = (Inr v, st')
   \<Longrightarrow> withState f ds = (Inr v, write_file st' ds)"
  by (simp add: withState_def)

lemma recordChunk_twice_memory:
  assumes "memory_upload m k uid = Some u" and "recordChunk t1 k uid i m = (Inr r1, m1)"
  shows "\<exists>u1. held_upload m1 k uid = Some u1 \<and> i |\<in>| receivedChunks u1
            \<and> r1 = chunk_result_of u1
            \<and> fst (recordChunk t2 k uid i m1) = Inr (chunk_result_of (u1\<lparr>updatedAt := t2\<rparr>))
            \<and> held_upload (snd (recordChunk t2 k uid i m1)) k uid = Some (u1\<lparr>updatedAt := t2\<rparr>)"
proof -
  from assms obtain u' where mk: "markChunk t1 i u = Inr u'" and r1: "r1 = chunk_result_of u'"
    and m1: "m1 = m\<lparr>ephemeral := modify_bucket k (AList.update uid u') (ephemeral m)\<rparr>"
    by (auto simp: recordChunk_def split: sum.splits)
  from m1 have "ephemeral m1 = modify_bucket k (AList.update uid u') (ephemeral m)" by simp
  from memory_upload_put [OF this] memory_upload_bucket [OF assms(1)]
  have mu: "memory_upload m1 k uid = Some u'" by simp
  have "memory_upload (m1\<lparr>ephemeral := modify_bucket k (AList.update uid (u'\<lparr>updatedAt := t2\<rparr>)) (ephemeral m1)\<rparr>) k uid
          = Some (u'\<lparr>updatedAt := t2\<rparr>)"
    using memory_upload_put [of _ k uid "u'\<lparr>updatedAt := t2\<rparr>" "ephemeral m1"]
      memory_upload_bucket [OF mu] by simp
  moreover from markChunk_Inr [OF mk] have "i |\<in>| receivedChunks u'" by simp
  ultimately show ?thesis using mu r1 markChunk_again [OF mk, of t2]
    by (simp add: recordChunk_def held_upload_def)
qed

lemma recordChunk_twice_persistent:
  assumes "memory_upload m k uid = None" and "recordChunk t1 k uid i m = (Inr r1, m1)"
  shows "\<exists>u1. held_upload m1 k uid = Some u1 \<and> i |\<in>| receivedChunks u1
            \<and> r1 = chunk_result_of u1
            \<and> fst (recordChunk t2 k uid i m1) = Inr (chunk_result_of (u1\<lparr>updatedAt := t2\<rparr>))
            \<and> held_upload (snd (recordChunk t2 k uid i m1)) k uid = Some (u1\<lparr>updatedAt := t2\<rparr>)"
proof -
  from assms obtain u' where w: "withState (recordChunk_mutator t1 k uid i) (store m) = (Inr u', store m1)"
    and r1: "r1 = chunk_result_of u'" and m1: "m1 = m\<lparr>store := store m1\<rparr>"
    by (auto simp: recordChunk_def split: prod.splits sum.splits)
  from withState_Inr [OF w] obtain st st' where lk: "lock (store m) = Fulfilled"
    and rd: "read_file (backing (store m)) = Inr st"
    and f: "recordChunk_mutator t1 k uid i st = (Inr u', st')"
    and ds: "store m1 = write_file st' (store m)"
    by blast
  from f obtain u where fu: "find_upload st k uid = Inr u" and mk: "markChunk t1 i u = Inr u'"
    and st': "st' = modify_user k (\<lambda>r. r\<lparr>uploads := AList.update uid u' (uploads r)\<rparr>) st"
    by (auto simp: recordChunk_mutator_def split: sum.splits)
  from fu have su: "stored_upload st k uid = Some u" by (simp add: find_upload_Inr)
  from su have usr: "users st k \<noteq> None" by (auto simp: stored_upload_def split: option.splits)
  have nu: "deepClone u' = u'"
    using markChunk_normal [OF mk stored_upload_normal [OF rd su]] .
  have rd1: "read_file (backing (store m1)) = Inr (json_state st')"
    using ds by (simp add: write_file_def)
  have su1: "stored_upload (json_state st') k uid = Some u'"
    using usr nu by (simp add: stored_upload_json_state st' stored_upload_put)
  have lk1: "lock (store m1) = Fulfilled" using ds lk by (simp add: write_file_def)
  have mem1: "memory_upload m1 k uid = None"
    using assms(1) m1 by (simp add: memory_upload_def) (metis manager.select_convs(4) manager.surjective manager.update_convs(3))
  have h1: "held_upload m1 k uid = Some u'"
    using mem1 rd1 su1 by (simp add: held_upload_def)
  let ?u2 = "u'\<lparr>updatedAt := t2\<rparr>"
  let ?st2 = "modify_user k (\<lambda>r. r\<lparr>uploads := AList.update uid ?u2 (uploads r)\<rparr>) (json_state st')"
  have f2: "recordChunk_mutator t2 k uid i (json_state st') = (Inr ?u2, ?st2)"
    using find_upload_stored [OF su1] markChunk_again [OF mk, of t2]
    by (simp add: recordChunk_mutator_def)
  have w2: "withState (recordChunk_mutator t2 k uid i) (store m1) = (Inr ?u2, write_file ?st2 (store m1))"
    using lk1 rd1 f2 by (simp add: withState_def)
  have rc2: "recordChunk t2 k uid i m1 = (Inr (chunk_result_of ?u2), m1\<lparr>store := write_file ?st2 (store m1)\<rparr>)"
    using mem1 w2 by (simp add: recordChunk_def)
  have nu2: "deepClone ?u2 = ?u2" using nu by (cases u') (simp add: deepClone_def)
  have usr1: "users (json_state st') k \<noteq> None"
    using su1 by (auto simp: stored_upload_def split: option.splits)
  have "held_upload (m1\<lparr>store := write_file ?st2 (store m1)\<rparr>) k uid = Some ?u2"
    using mem1 nu2 usr1
    by (simp add: held_upload_def memory_upload_def write_file_def stored_upload_json_state stored_upload_put)
  moreover from markChunk_Inr [OF mk] have "i |\<in>| receivedChunks u'" by simp
  ultimately show ?thesis using h1 r1 rc2 by simp
qed







lemma take_200_Cons: "take 200 (h # hs) = h # take 199 hs"
  by (simp add: take_Cons')










lemma history_of_backing: "backing (store m') = backing (store m) \<Longrightarrow> history_of m' k = history_of m k"
  by (simp add: history_of_def)


subsection \<open>The shape of the stored metadata is an invariant\<close>

lemma stored_shape_deepClone: "stored_shape (deepClone u) = stored_shape u"
  by (simp add: stored_shape_def deepClone_def)

lemma doc_shape_json_state: "doc_shape st \<Longrightarrow> doc_shape (json_state st)"
  by (fastforce simp: doc_shape_def json_state_def deepClone_user_def stored_shape_deepClone)

lemma read_file_shape: "file_shape b \<Longrightarrow> read_file b = Inr st \<Longrightarrow> doc_shape st"
proof (cases b)
  case Absent
  then show "read_file b = Inr st \<Longrightarrow> doc_shape st" by (auto simp: doc_shape_def)
next
  case (Content x)
  then show "file_shape b \<Longrightarrow> read_file b = Inr st \<Longrightarrow> doc_shape st"
    by (auto simp: doc_shape_json_state)
qed auto

lemma withState_shape:
  assumes "file_shape (backing ds)"
    and "\<And>st v st'. doc_shape st \<Longrightarrow> f st = (Inr v, st') \<Longrightarrow> doc_shape st'"
  shows "file_shape (backing (snd (withState f ds)))"
proof (cases "withState f ds")
  case (Pair res ds')
  show ?thesis
  proof (cases res)
    case (Inl e)
    with Pair assms(1) show ?thesis by (simp add: withState_Inl)
  next
    case (Inr v)
    with Pair have w: "withState f ds = (Inr v, ds')" by simp
    from withState_Inr [OF w] obtain st st' where "read_file (backing ds) = Inr st"
      "f st = (Inr v, st')" "ds' = write_file st' ds"
      by blast
    with assms read_file_shape [of "backing ds" st] Pair show ?thesis
      by (simp add: write_file_def)
  qed
qed

lemma readState_backing: "backing (snd (readState sel ds)) = backing ds"
  by (simp add: readState_def split: lock_state.splits sum.splits)

lemma doc_shape_modify_user:
  assumes "doc_shape st"
    and "\<And>r uid u. users st k = Some r \<Longrightarrow> (uid, u) \<in> set (uploads (f r)) \<Longrightarrow>
           (uid, u) \<in> set (uploads r) \<or> stored_shape u"
  shows "doc_shape (modify_user k f st)"
  using assms
  by (auto simp: doc_shape_def modify_user_def split: option.splits if_splits) blast+

lemma doc_shape_ensureUserRecord: "doc_shape st \<Longrightarrow> doc_shape (ensureUserRecord now k st)"
  by (auto simp: doc_shape_def ensureUserRecord_def new_user_def split: option.splits if_splits)

lemma set_update_cases: "x \<in> set (AList.update k v al) \<Longrightarrow> x \<in> set al \<or> x = (k, v)"
  by (induction al) (auto split: if_splits)

lemma set_delete_subset: "x \<in> set (AList.delete k al) \<Longrightarrow> x \<in> set al"
  by (induction al) (auto split: if_splits)

lemma uploads_push_history: "uploads (push_history h r) = uploads r"
  by (simp add: push_history_def Let_def)

lemma markChunk_shape: "markChunk now i u = Inr u' \<Longrightarrow> stored_shape u \<Longrightarrow> stored_shape u'"
  by (auto simp: markChunk_def stored_shape_def Let_def split: if_splits)

lemma stored_upload_in_set: "stored_upload st k uid = Some u \<Longrightarrow> \<exists>r. users st k = Some r \<and> (uid, u) \<in> set (uploads r)"
  by (auto simp: stored_upload_def split: option.splits dest: map_of_SomeD)

lemma stored_upload_shape: "doc_shape st \<Longrightarrow> stored_upload st k uid = Some u \<Longrightarrow> stored_shape u"
  using stored_upload_in_set [of st k uid u] by (auto simp: doc_shape_def)


lemma find_upload_shape: "doc_shape st \<Longrightarrow> find_upload st k uid = Inr u \<Longrightarrow> stored_shape u"
  by (simp add: find_upload_Inr stored_upload_shape)

lemma identifyUser_shape:
  assumes "file_shape (backing (store m))"
  shows "file_shape (backing (store (snd (identifyUser now ids requestedKey m))))"
proof -
  have mut: "\<And>st v st'. doc_shape st \<Longrightarrow> identify_mutator now ids requestedKey st = (Inr v, st')
               \<Longrightarrow> doc_shape st'"
    by (auto simp: identify_mutator_def Let_def doc_shape_def new_user_def
        split: option.splits if_splits)
  have cr: "\<And>m'. file_shape (backing (store m')) \<Longrightarrow>
              file_shape (backing (store (snd (identify_create now ids requestedKey m'))))"
  proof -
    fix m' :: manager
    assume a: "file_shape (backing (store m'))"
    from withState_shape [OF a mut, of "identify_mutator now ids requestedKey"]
    show "file_shape (backing (store (snd (identify_create now ids requestedKey m'))))"
      by (auto simp: identify_create_def split: prod.splits sum.splits)
  qed
  show ?thesis
  proof (cases requestedKey)
    case None
    with cr [OF assms] show ?thesis by (simp add: identifyUser_def)
  next
    case (Some k)
    obtain res ds where rs: "readState (\<lambda>st. Inr (has_user st k)) (store m) = (res, ds)"
      by (cases "readState (\<lambda>st. Inr (has_user st k)) (store m)")
    with readState_backing [of "\<lambda>st. Inr (has_user st k)" "store m"]
    have b: "backing ds = backing (store m)" by simp
    with assms have "file_shape (backing (store (m\<lparr>store := ds\<rparr>)))" by simp
    from cr [OF this] cr [OF assms] Some rs b assms show ?thesis
      by (auto simp: identifyUser_def split: sum.splits)
  qed
qed

lemma doc_shape_put_upload:
  assumes "doc_shape st" and "stored_shape u'"
  shows "doc_shape (modify_user k (\<lambda>r. r\<lparr>uploads := AList.update uid u' (uploads r)\<rparr>) st)"
proof (rule doc_shape_modify_user [OF assms(1)])
  fix r uid' u
  assume "(uid', u) \<in> set (uploads (r\<lparr>uploads := AList.update uid u' (uploads r)\<rparr>))"
  then have "(uid', u) \<in> set (AList.update uid u' (uploads r))" by simp
  from set_update_cases [OF this] assms(2)
  show "(uid', u) \<in> set (uploads r) \<or> stored_shape u" by auto
qed

lemma createUpload_mutator_shape:
  assumes "doc_shape st" and "stored_shape base"
    and "createUpload_mutator now k uploadId base st = (Inr v, st')"
  shows "doc_shape st'"
proof (cases "inherited_user st k \<or> uploadId = ''__proto__''")
  case True
  with assms(3) have "st' = ensureUserRecord now k st"
    by (simp add: createUpload_mutator_def Let_def)
  with assms(1) show ?thesis by (simp add: doc_shape_ensureUserRecord)
next
  case False
  with assms(3)
  have "st' = modify_user k (\<lambda>r. r\<lparr>uploads := AList.update uploadId base (uploads r)\<rparr>)
                (ensureUserRecord now k st)"
    by (simp add: createUpload_mutator_def Let_def)
  with doc_shape_put_upload [OF doc_shape_ensureUserRecord [OF assms(1)] assms(2)]
  show ?thesis by simp
qed

lemma createUpload_shape:
  assumes "file_shape (backing (store m))"
  shows "file_shape (backing (store (snd (createUpload now uploadId k name fsize csize persistArg m))))"
proof -
  let ?base = "\<lparr>upload_id = uploadId, userKey = k, fileName = name, fileSize = fsize,
             chunkSize = csize, totalChunks = js_ceil_div fsize csize,
             persist = (persistArg \<noteq> Some False), status = ''active'',
             receivedChunks = {||}, receivedCount = Some (Num 0),
             createdAt = now, updatedAt = now, completedAt = None, missingChunks = None\<rparr>"
  have sh: "stored_shape ?base" by (simp add: stored_shape_def)
  have "file_shape (backing (snd (withState (createUpload_mutator now k uploadId ?base) (store m))))"
    by (rule withState_shape [OF assms]) (rule createUpload_mutator_shape [OF _ sh])
  with assms show ?thesis
    by (auto simp: createUpload_def Let_def split: prod.splits sum.splits)
qed

lemma recordChunk_mutator_shape:
  assumes d: "doc_shape st" and f: "recordChunk_mutator now k uid i st = (Inr v, st')"
  shows "doc_shape st'"
proof -
  from f obtain u where fu: "find_upload st k uid = Inr u" and mk: "markChunk now i u = Inr v"
    and st': "st' = modify_user k (\<lambda>r. r\<lparr>uploads := AList.update uid v (uploads r)\<rparr>) st"
    by (auto simp: recordChunk_mutator_def split: sum.splits)
  from markChunk_shape [OF mk find_upload_shape [OF d fu]] have "stored_shape v" .
  from doc_shape_put_upload [OF d this] st' show "doc_shape st'" by simp
qed

lemma recordChunk_shape:
  assumes "file_shape (backing (store m))"
  shows "file_shape (backing (store (snd (recordChunk now k uid i m))))"
proof -
  have ws: "file_shape (backing (snd (withState (recordChunk_mutator now k uid i) (store m))))"
    by (rule withState_shape [OF assms]) (rule recordChunk_mutator_shape)
  show ?thesis
  proof (cases "memory_upload m k uid")
    case None
    with ws show ?thesis
      by (auto simp: recordChunk_def split: prod.splits sum.splits)
  next
    case (Some u)
    with assms show ?thesis
      by (simp add: recordChunk_def split: sum.splits)
  qed
qed

lemma updateStatus_mutator_shape:
  assumes d: "doc_shape st" and f: "updateStatus_mutator now k uid newStatus st = (Inr v, st')"
  shows "doc_shape st'"
proof -
  from f obtain u where fu: "find_upload st k uid = Inr u"
    and st': "st' = modify_user k
                (\<lambda>r. r\<lparr>uploads := AList.update uid (u\<lparr>status := newStatus, updatedAt := now\<rparr>) (uploads r)\<rparr>) st"
    by (auto simp: updateStatus_mutator_def Let_def split: sum.splits)
  from find_upload_shape [OF d fu]
  have "stored_shape (u\<lparr>status := newStatus, updatedAt := now\<rparr>)"
    by (simp add: stored_shape_def)
  from doc_shape_put_upload [OF d this] st' show "doc_shape st'" by simp
qed

lemma updateStatus_shape:
  assumes "file_shape (backing (store m))"
  shows "file_shape (backing (store (snd (updateStatus now k uid newStatus m))))"
proof -
  have ws: "file_shape (backing (snd (withState (updateStatus_mutator now k uid newStatus) (store m))))"
    by (rule withState_shape [OF assms]) (rule updateStatus_mutator_shape)
  show ?thesis
  proof (cases "memory_upload m k uid")
    case None
    with ws show ?thesis
      by (auto simp: updateStatus_def split: prod.splits sum.splits)
  next
    case (Some u)
    with assms show ?thesis
      by (simp add: updateStatus_def Let_def)
  qed
qed

lemma doc_shape_keep_uploads:
  assumes "doc_shape st" and "\<And>r. set (uploads (f r)) \<subseteq> set (uploads r)"
  shows "doc_shape (modify_user k f st)"
proof (rule doc_shape_modify_user [OF assms(1)])
  fix r uid u
  assume "(uid, u) \<in> set (uploads (f r))"
  with assms(2) [of r] show "(uid, u) \<in> set (uploads r) \<or> stored_shape u" by auto
qed

lemma set_delete_uploads: "set (AList.delete uid al) \<subseteq> set al"
  using set_delete_subset by fastforce

lemma history_mutator_shape:
  assumes "doc_shape st" and "history_mutator now k e st = (Inr v, st')"
  shows "doc_shape st'"
proof -
  from assms(2) have "st' = modify_user k (push_history e) (ensureUserRecord now k st)"
    by (simp add: history_mutator_def)
  moreover have "doc_shape (modify_user k (push_history e) (ensureUserRecord now k st))"
    by (rule doc_shape_keep_uploads [OF doc_shape_ensureUserRecord [OF assms(1)]])
      (simp add: uploads_push_history)
  ultimately show ?thesis by simp
qed

lemma finalizeUpload_mutator_shape:
  assumes d: "doc_shape st" and f: "finalizeUpload_mutator now k uid st = (Inr v, st')"
  shows "doc_shape st'"
proof -
  from f obtain u where
    st': "st' = modify_user k
                  (\<lambda>r. let r' = push_history (toHistoryEntry now (u\<lparr>status := ''completed'', completedAt := Some now\<rparr>)) r
                       in r'\<lparr>uploads := AList.delete uid (uploads r')\<rparr>) st"
    by (auto simp: finalizeUpload_mutator_def Let_def split: sum.splits)
  show "doc_shape st'"
    unfolding st'
    by (rule doc_shape_keep_uploads [OF d])
      (simp add: Let_def uploads_push_history set_delete_uploads)
qed

lemma finalizeUpload_shape:
  assumes "file_shape (backing (store m))"
  shows "file_shape (backing (store (snd (finalizeUpload now k uid m))))"
proof (cases "memory_upload m k uid")
  case (Some u)
  let ?e = "toHistoryEntry now (u\<lparr>status := ''completed'', completedAt := Some now\<rparr>)"
  have "file_shape (backing (snd (withState (history_mutator now k ?e) (store m))))"
    by (rule withState_shape [OF assms]) (rule history_mutator_shape)
  with Some show ?thesis
    by (auto simp: finalizeUpload_def Let_def split: prod.splits sum.splits)
next
  case None
  have "file_shape (backing (snd (withState (finalizeUpload_mutator now k uid) (store m))))"
    by (rule withState_shape [OF assms]) (rule finalizeUpload_mutator_shape)
  with None show ?thesis
    by (auto simp: finalizeUpload_def split: prod.splits sum.splits)
qed

lemma removeUpload_mutator_shape:
  assumes d: "doc_shape st" and f: "removeUpload_mutator now k uid forget st = (Inr v, st')"
  shows "doc_shape st'"
proof -
  from f obtain u where
    st': "st' = modify_user k
                  (\<lambda>r. let r' = (if \<not> forget then push_history (toHistoryEntry now u) r else r)
                       in r'\<lparr>uploads := AList.delete uid (uploads r')\<rparr>) st"
    by (auto simp: removeUpload_mutator_def split: sum.splits)
  show "doc_shape st'"
    unfolding st'
    by (rule doc_shape_keep_uploads [OF d])
      (simp add: Let_def uploads_push_history set_delete_uploads)
qed

lemma removeUpload_shape:
  assumes "file_shape (backing (store m))"
  shows "file_shape (backing (store (snd (removeUpload now k uid forget m))))"
proof (cases "memory_upload m k uid")
  case (Some u)
  have "file_shape (backing (snd (withState (history_mutator now k (toHistoryEntry now u)) (store m))))"
    by (rule withState_shape [OF assms]) (rule history_mutator_shape)
  with Some assms show ?thesis
    by (auto simp: removeUpload_def Let_def split: prod.splits sum.splits)
next
  case None
  have "file_shape (backing (snd (withState (removeUpload_mutator now k uid forget) (store m))))"
    by (rule withState_shape [OF assms]) (rule removeUpload_mutator_shape)
  with None show ?thesis
    by (auto simp: removeUpload_def split: prod.splits sum.splits)
qed

lemma clearHistory_mutator_shape:
  assumes d: "doc_shape st" and f: "clearHistory_mutator k st = (Inr v, st')"
  shows "doc_shape st'"
proof -
  from f have st': "st' = modify_user k (\<lambda>r. r\<lparr>history := []\<rparr>) st"
    by (auto simp: clearHistory_mutator_def split: if_splits)
  show "doc_shape st'"
    unfolding st' by (rule doc_shape_keep_uploads [OF d]) simp
qed

lemma clearHistory_shape:
  assumes "file_shape (backing (store m))"
  shows "file_shape (backing (store (snd (clearHistory k m))))"
proof -
  have "file_shape (backing (snd (withState (clearHistory_mutator k) (store m))))"
    by (rule withState_shape [OF assms]) (rule clearHistory_mutator_shape)
  then show ?thesis
    by (auto simp: clearHistory_def split: prod.splits sum.splits)
qed

lemma getUpload_backing: "backing (store (snd (getUpload k uid m))) = backing (store m)"
proof (cases "memory_upload m k uid")
  case None
  from readState_backing [of "getUpload_selector k uid" "store m"] None show ?thesis
    by (auto simp: getUpload_def split: prod.splits sum.splits option.splits)
qed (simp add: getUpload_def)

lemma getUserSnapshot_backing: "backing (store (snd (getUserSnapshot k m))) = backing (store m)"
proof -
  from readState_backing [of "getUserSnapshot_selector k" "store m"] show ?thesis
    by (auto simp: getUserSnapshot_def Let_def split: prod.splits sum.splits)
qed

lemma reachable_file_shape: "reachable m \<Longrightarrow> file_shape (backing (store m))"
proof (induction rule: reachable.induct)
  case (start ud fd fs)
  show ?case by (simp add: new_manager_def)
next
  case (restart m)
  then show ?case by (simp add: new_manager_def)
next
  case (other_files m fs)
  then show ?case by simp
next
  case (identify m now ids requestedKey)
  show ?case by (rule identifyUser_shape [OF identify.IH])
next
  case (snapshot m k)
  then show ?case by (simp add: getUserSnapshot_backing)
next
  case (create m now uploadId k name fsize csize persistArg)
  show ?case by (rule createUpload_shape [OF create.IH])
next
  case (get m k uid)
  then show ?case by (simp add: getUpload_backing)
next
  case (chunk m now k uid i)
  show ?case by (rule recordChunk_shape [OF chunk.IH])
next
  case (set_status m now k uid newStatus)
  show ?case by (rule updateStatus_shape [OF set_status.IH])
next
  case (finalize m now k uid)
  show ?case by (rule finalizeUpload_shape [OF finalize.IH])
next
  case (remove m now k uid forget)
  show ?case by (rule removeUpload_shape [OF remove.IH])
next
  case (clear m k)
  show ?case by (rule clearHistory_shape [OF clear.IH])
qed

subsection \<open>Paths and the assembly loop\<close>
















section \<open>Properties of the State Store\<close>

text \<open>
  C3. The claim asks that of two operations submitted one after the other the second
  runs and its caller receives its own value, also when the first mutator threw. On a
  store with no backing file, a first \<open>withState\<close> whose mutator throws
  \<open>upload_not_found\<close> leaves \<open>_lock\<close> rejected; the selector of a following
  \<open>readState\<close> is never applied, whatever it is, and its caller receives the error of
  the first call (on the store as it was, the selector \<open>state.users['alice'] ? true :
  false\<close> would have given \<open>false\<close>). Through the manager: after a
  \<open>recordChunk\<close> for an upload that does not exist, \<open>identifyUser\<close> fails with
  \<open>upload_not_found\<close>.
\<close>

theorem readState_after_failed_withState:
  "fst (readState selector
          (snd (withState (\<lambda>st. (Inl upload_not_found :: error + unit, f st))
                  \<lparr>backing = Absent, lock = Fulfilled\<rparr>)))
     = Inl upload_not_found
   \<and> fst (readState (\<lambda>st. Inr (users st ''alice'' \<noteq> None))
            \<lparr>backing = Absent, lock = Fulfilled\<rparr>)
     = Inr False
   \<and> fst (identifyUser ''t1'' ids (Some ''alice'')
            (snd (recordChunk ''t0'' ''alice'' ''F0'' 0 manager0)))
     = Inl upload_not_found"
  by (simp add: withState_def readState_def identifyUser_def recordChunk_def manager0_def
      new_manager_def memory_upload_def recordChunk_mutator_def find_upload_def)

text \<open>
  C6. When the mutator of a \<open>withState\<close> call throws, whatever it did to the document
  it was given, the backing file is left as it was, so the document that a read of
  the file yields is the one from before the call, and a State Store opened on the
  file answers every \<open>readState\<close> as before the call.
\<close>

theorem withState_throw_keeps_file:
  assumes "read_file (backing ds) = Inr st" and "mutator st = (Inl e, st')"
  shows "backing (snd (withState mutator ds)) = backing ds
         \<and> read_file (backing (snd (withState mutator ds))) = Inr st
         \<and> fst (readState selector
                  \<lparr>backing = backing (snd (withState mutator ds)), lock = Fulfilled\<rparr>)
             = fst (readState selector \<lparr>backing = backing ds, lock = Fulfilled\<rparr>)"
  using assms by (cases "lock ds") (simp_all add: withState_def)

theorem withState_throw_keeps_file_witness:
  "backing (snd (withState
       (\<lambda>st. (Inl user_not_found :: error + unit, st\<lparr>users := Map.empty\<rparr>))
       \<lparr>backing = Content \<lparr>users = [''u1'' \<mapsto>
            \<lparr>key = ''u1'', u_createdAt = ''t0'', uploads = [], history = []\<rparr>]\<rparr>,
        lock = Fulfilled\<rparr>))
   = Content \<lparr>users = [''u1'' \<mapsto>
            \<lparr>key = ''u1'', u_createdAt = ''t0'', uploads = [], history = []\<rparr>]\<rparr>"
proof -
  let ?doc = "\<lparr>users = [''u1'' \<mapsto>
            \<lparr>key = ''u1'', u_createdAt = ''t0'', uploads = [], history = []\<rparr>]\<rparr>"
  let ?ds = "\<lparr>backing = Content ?doc, lock = Fulfilled\<rparr>"
  let ?mutator = "\<lambda>st. (Inl user_not_found :: error + unit, st\<lparr>users := Map.empty\<rparr>)"
  have r: "read_file (backing ?ds) = Inr (json_state ?doc)"
    by simp
  have t: "?mutator (json_state ?doc) = (Inl user_not_found, (json_state ?doc)\<lparr>users := Map.empty\<rparr>)"
    by simp
  have "backing (snd (withState ?mutator ?ds)) = backing ?ds"
    by (rule conjunct1
        [OF withState_throw_keeps_file
          [where mutator = ?mutator and ds = ?ds and st = "json_state ?doc"
             and e = user_not_found and st' = "(json_state ?doc)\<lparr>users := Map.empty\<rparr>"
             and selector = "\<lambda>st. Inr (users st ''u1'' \<noteq> None) :: error + bool", OF r t]])
  then show ?thesis
    by simp
qed

section \<open>Properties of identifyUser\<close>

text \<open>
  C1, as stated. The claim says that a requested key which is not in \<open>state.users\<close>
  is not honoured: a new key, different from the requested one, is returned. On a
  fresh data directory, \<open>identifyUser('alice')\<close> returns the requested key itself
  with \<open>created: true\<close>, although the id factory had another id to give.
\<close>

theorem identifyUser_unknown_key_counterexample:
  "fst (identifyUser ''t1'' [''Zx81Zx81Zx81Zx81''] (Some ''alice'') manager0)
     = Inr \<lparr>r_userKey = ''alice'', created = True\<rparr>"
  by (simp add: identifyUser_def readState_def identify_create_def withState_def
      identify_mutator_def new_manager_def manager0_def write_file_def has_user_def)

text \<open>
  C1, amended. For every non-empty requested key that a read of the state document
  does not find and that is not the name of a property inherited from
  \<open>Object.prototype\<close>, on a store whose queue is not rejected, \<open>identifyUser\<close>
  returns the requested key itself with \<open>created = True\<close>, writes a new user record
  under that key, and initialises the user's bucket. The outputs of the id factory play
  no part: the result is the same for every \<open>ids\<close>.
\<close>

theorem identifyUser_unknown_key_honoured:
  assumes "lock (store m) = Fulfilled" and "read_file (backing (store m)) = Inr st"
    and "k \<noteq> []" and "users st k = None" and "\<not> inherited k"
  shows "identifyUser now ids (Some k) m =
           (Inr \<lparr>r_userKey = k, created = True\<rparr>,
            m\<lparr>store := write_file (st\<lparr>users := (users st)(k \<mapsto> new_user now k)\<rparr>) (store m),
              ephemeral := ensureEphemeralUser k (ephemeral m)\<rparr>)"
  using assms
  by (simp add: identifyUser_def readState_def identify_create_def withState_def
      identify_mutator_def has_user_def)

theorem identifyUser_unknown_key_honoured_witness:
  "fst (identifyUser ''t1'' [] (Some ''bob'') manager0)
     = Inr \<lparr>r_userKey = ''bob'', created = True\<rparr>
   \<and> history_of (snd (identifyUser ''t1'' [] (Some ''bob'') manager0)) ''bob'' = Some []"
  using identifyUser_unknown_key_honoured
    [of manager0 "\<lparr>users = Map.empty\<rparr>" "''bob''" "''t1''" "[]"]
  by (simp add: manager0_def new_manager_def history_of_def write_file_def json_state_def
      deepClone_user_def new_user_def inherited_def object_prototype_names_def)

text \<open>
  The names left out are not honoured and not replaced either: for a requested key
  such as \<open>constructor\<close> that the document does not hold, \<open>state.users[key]\<close> is
  a built-in function, so \<open>identifyUser\<close> answers \<open>created = False\<close>, calls no
  mutator and writes nothing.
\<close>

lemma identifyUser_inherited_name:
  assumes "lock (store m) = Fulfilled" and "read_file (backing (store m)) = Inr st"
    and "inherited k"
  shows "identifyUser now ids (Some k) m =
           (Inr \<lparr>r_userKey = k, created = False\<rparr>,
            m\<lparr>store := store m, ephemeral := ensureEphemeralUser k (ephemeral m)\<rparr>)"
proof -
  from assms(3) have "k \<noteq> []" by (auto simp: inherited_def object_prototype_names_def)
  with assms show ?thesis
    by (simp add: identifyUser_def readState_def has_user_def)
qed

section \<open>Properties of createUpload\<close>

text \<open>
  C5, as stated. The claim says that \<open>createUpload\<close> fails, and creates no metadata,
  when \<open>fileSize \<le> 0\<close>. Called with \<open>fileSize = 0\<close> and \<open>chunkSize = 5\<close> it
  returns an upload of 0 chunks and leaves the metadata in the user's bucket. The claim
  also says that \<open>totalChunks\<close> is \<open>\<lceil>fileSize / chunkSize\<rceil>\<close> for all positive
  sizes. For \<open>fileSize = 13510798882111492\<close> and \<open>chunkSize = 4503599627370497\<close>,
  both binary64 numbers, the quotient is rounded to 3 before \<open>Math.ceil\<close> sees it:
  \<open>totalChunks\<close> is 3, and the ceiling of the quotient is 4.
\<close>

theorem createUpload_zero_size_counterexample:
  "map_sum id totalChunks
     (fst (createUpload ''t0'' ''F1'' ''alice'' ''a.bin'' 0 5 (Some False) manager0))
     = Inr (Num 0)
   \<and> map_option totalChunks
       (memory_upload
          (snd (createUpload ''t0'' ''F1'' ''alice'' ''a.bin'' 0 5 (Some False) manager0))
          ''alice'' ''F1'')
     = Some (Num 0)
   \<and> map_sum id totalChunks
       (fst (createUpload ''t0'' ''F1'' ''alice'' ''a.bin'' 13510798882111492 4503599627370497
               (Some False) manager0))
     = Inr (Num 3)
   \<and> \<lceil>real_of_int 13510798882111492 / real_of_int 4503599627370497\<rceil> = (4 :: int)"
proof -
  have big: "js_ceil_div 13510798882111492 4503599627370497 = Num 3"
    by code_simp
  have "\<lceil>real_of_int 13510798882111492 / real_of_int 4503599627370497\<rceil>
          = - ((- 13510798882111492) div (4503599627370497 :: int))"
    by (rule ceiling_divide_eq_div)
  then have "\<lceil>real_of_int 13510798882111492 / real_of_int 4503599627370497\<rceil> = (4 :: int)"
    by simp
  with big show ?thesis
    by (simp add: createUpload_def manager0_def new_manager_def decorateUpload_def deepClone_def
        memory_upload_def modify_bucket_def ensureEphemeralUser_def missingChunks_of_def)
qed

text \<open>
  C5, amended. The sizes are validated by the handler of \<open>POST /api/uploads\<close>, not
  by \<open>createUpload\<close>: a request whose sizes are finite with \<open>fileSize \<le> 0\<close> or
  \<open>chunkSize \<le> 0\<close> fails (with \<open>invalid_sizes\<close>, or with \<open>missing_fields\<close>
  when the user key or the file name is missing) and leaves the manager as it was, so
  no metadata is created. Every \<open>createUpload\<close> call with positive integer sizes
  below \<open>2 ^ 53\<close> that returns gives an upload with
  \<open>totalChunks = \<lceil>fileSize / chunkSize\<rceil>\<close>. The metadata it created has the same
  \<open>totalChunks\<close>: in the bucket when \<open>persist\<close> is false; in the state document
  otherwise, for a user key that is not a name inherited from \<open>Object.prototype\<close>
  and an upload id other than \<open>__proto__\<close> (which the id factory, drawing from
  letters and digits, does not produce).
\<close>

theorem post_uploads_validates_sizes:
  assumes "b_fileSize req = Finite fsize" and "b_chunkSize req = Finite csize"
  shows "(fsize \<le> 0 \<or> csize \<le> 0 \<longrightarrow>
            post_uploads now uid req m =
              (Inl (if truthy (b_userKey req) \<and> truthy (b_fileName req) then invalid_sizes
                    else missing_fields), m))
       \<and> (0 < fsize \<and> fsize < 2 ^ 53 \<and> 0 < csize \<and> csize < 2 ^ 53
            \<and> createUpload now uid k name fsize csize pa m = (Inr d, m') \<longrightarrow>
            totalChunks d = Num \<lceil>real_of_int fsize / real_of_int csize\<rceil>
            \<and> (pa = Some False \<longrightarrow>
                  map_option totalChunks (memory_upload m' k uid)
                    = Some (Num \<lceil>real_of_int fsize / real_of_int csize\<rceil>))
            \<and> (pa \<noteq> Some False \<and> \<not> inherited k \<and> uid \<noteq> ''__proto__'' \<longrightarrow>
                  map_option totalChunks
                    (case read_file (backing (store m')) of
                       Inl e \<Rightarrow> None
                     | Inr st \<Rightarrow> stored_upload st k uid)
                    = Some (Num \<lceil>real_of_int fsize / real_of_int csize\<rceil>)))"
proof (rule conjI; rule impI)
  assume "fsize \<le> 0 \<or> csize \<le> 0"
  with assms show "post_uploads now uid req m =
              (Inl (if truthy (b_userKey req) \<and> truthy (b_fileName req) then invalid_sizes
                    else missing_fields), m)"
    by (auto simp: post_uploads_def split: option.splits)
next
  assume a: "0 < fsize \<and> fsize < 2 ^ 53 \<and> 0 < csize \<and> csize < 2 ^ 53
             \<and> createUpload now uid k name fsize csize pa m = (Inr d, m')"
  then have c: "js_ceil_div fsize csize = Num \<lceil>real_of_int fsize / real_of_int csize\<rceil>"
    by (simp add: js_ceil_div_ceiling)
  from a have cu: "createUpload now uid k name fsize csize pa m = (Inr d, m')"
    by simp
  have d: "totalChunks d = Num \<lceil>real_of_int fsize / real_of_int csize\<rceil>"
    using cu c by (auto simp: createUpload_def Let_def totalChunks_decorateUpload
        split: if_splits prod.splits sum.splits)
  have mem: "pa = Some False \<longrightarrow>
               map_option totalChunks (memory_upload m' k uid)
                 = Some (Num \<lceil>real_of_int fsize / real_of_int csize\<rceil>)"
  proof
    assume "pa = Some False"
    with cu have "createUpload now uid k name fsize csize (Some False) m = (Inr d, m')"
      by simp
    from createUpload_memory [OF this] obtain u
      where "memory_upload m' k uid = Some u" "totalChunks u = js_ceil_div fsize csize"
      by auto
    with c show "map_option totalChunks (memory_upload m' k uid)
                   = Some (Num \<lceil>real_of_int fsize / real_of_int csize\<rceil>)"
      by simp
  qed
  have sto: "pa \<noteq> Some False \<and> \<not> inherited k \<and> uid \<noteq> ''__proto__'' \<longrightarrow>
               map_option totalChunks
                 (case read_file (backing (store m')) of
                    Inl e \<Rightarrow> None
                  | Inr st \<Rightarrow> stored_upload st k uid)
                 = Some (Num \<lceil>real_of_int fsize / real_of_int csize\<rceil>)"
  proof
    assume h: "pa \<noteq> Some False \<and> \<not> inherited k \<and> uid \<noteq> ''__proto__''"
    then have h1: "pa \<noteq> Some False" and h2: "\<not> inherited k" and h3: "uid \<noteq> ''__proto__''"
      by simp_all
    from createUpload_persistent [OF cu h1 h2 h3] obtain st u
      where "read_file (backing (store m')) = Inr st" "stored_upload st k uid = Some u"
        "totalChunks u = json_num (js_ceil_div fsize csize)"
      by auto
    with c show "map_option totalChunks
                 (case read_file (backing (store m')) of
                    Inl e \<Rightarrow> None
                  | Inr st \<Rightarrow> stored_upload st k uid)
                 = Some (Num \<lceil>real_of_int fsize / real_of_int csize\<rceil>)"
      by simp
  qed
  from d mem sto
  show "totalChunks d = Num \<lceil>real_of_int fsize / real_of_int csize\<rceil>
            \<and> (pa = Some False \<longrightarrow>
                  map_option totalChunks (memory_upload m' k uid)
                    = Some (Num \<lceil>real_of_int fsize / real_of_int csize\<rceil>))
            \<and> (pa \<noteq> Some False \<and> \<not> inherited k \<and> uid \<noteq> ''__proto__'' \<longrightarrow>
                  map_option totalChunks
                    (case read_file (backing (store m')) of
                       Inl e \<Rightarrow> None
                     | Inr st \<Rightarrow> stored_upload st k uid)
                    = Some (Num \<lceil>real_of_int fsize / real_of_int csize\<rceil>))"
    by blast
qed

theorem post_uploads_validates_sizes_witness:
  "post_uploads ''t0'' ''F1''
      \<lparr>b_userKey = Some ''alice'', b_fileName = Some ''a.bin'', b_fileSize = Finite 10,
       b_chunkSize = Finite 0, b_persist = FlagAbsent\<rparr> manager0
     = (Inl invalid_sizes, manager0)
   \<and> (\<exists>d m'. createUpload ''t0'' ''F1'' ''alice'' ''a.bin'' 10 6 None manager0 = (Inr d, m')
              \<and> totalChunks d = Num 2
              \<and> map_option totalChunks (held_upload m' ''alice'' ''F1'') = Some (Num 2))"
proof -
  let ?req = "\<lparr>b_userKey = Some ''alice'', b_fileName = Some ''a.bin'',
               b_fileSize = Finite 10, b_chunkSize = Finite 0, b_persist = FlagAbsent\<rparr>"
  have "\<exists>d m'. createUpload ''t0'' ''F1'' ''alice'' ''a.bin'' 10 6 None manager0 = (Inr d, m')"
    by (simp add: createUpload_def Let_def manager0_def new_manager_def withState_def
        createUpload_mutator_def inherited_user_def)
  then obtain d m'
    where c: "createUpload ''t0'' ''F1'' ''alice'' ''a.bin'' 10 6 None manager0 = (Inr d, m')"
    by blast
  then have m': "m' = demo_persistent" by (simp add: demo_persistent_def)
  have "post_uploads ''t0'' ''F1'' ?req manager0 = (Inl invalid_sizes, manager0)"
    using post_uploads_validates_sizes [of ?req 10 0 "''t0''" "''F1''" manager0]
    by simp
  moreover have "totalChunks d = Num 2
                 \<and> map_option totalChunks (held_upload m' ''alice'' ''F1'') = Some (Num 2)"
    using post_uploads_validates_sizes
      [of "?req\<lparr>b_chunkSize := Finite 6\<rparr>" 10 6 "''t0''" "''F1''" manager0
          "''alice''" "''a.bin''" None d m'] c
    by (simp add: m' held_upload_def memory_upload_def demo_persistent_ephemeral
        demo_persistent_store)
  ultimately show ?thesis using c by blast
qed

section \<open>Properties of recordChunk\<close>

text \<open>
  C9. For every upload the manager holds and every chunk index outside
  \<open>[0, totalChunks)\<close>, \<open>recordChunk\<close> throws \<open>chunk_out_of_range\<close> and the
  upload's metadata, the buckets and the backing file are exactly as before the call.
  (On the persistent path the queue of the State Store must not be rejected, or the
  call fails with the earlier error instead.)
\<close>

theorem recordChunk_out_of_range_atomic:
  assumes "held_upload m k uid = Some u"
    and "memory_upload m k uid = None \<longrightarrow> lock (store m) = Fulfilled"
    and "totalChunks u = Num n" and "i < 0 \<or> n \<le> i"
  shows "fst (recordChunk now k uid i m) = Inl chunk_out_of_range
       \<and> held_upload (snd (recordChunk now k uid i m)) k uid = Some u
       \<and> ephemeral (snd (recordChunk now k uid i m)) = ephemeral m
       \<and> backing (store (snd (recordChunk now k uid i m))) = backing (store m)"
proof (cases "memory_upload m k uid")
  case (Some v)
  with assms have "v = u" by (simp add: held_upload_def)
  with Some assms show ?thesis
    by (simp add: recordChunk_def markChunk_range held_upload_def)
next
  case None
  with assms obtain st
    where st: "read_file (backing (store m)) = Inr st" "stored_upload st k uid = Some u"
      and lk: "lock (store m) = Fulfilled"
    by (auto simp: held_upload_def split: sum.splits)
  with None assms show ?thesis
    by (simp add: recordChunk_def withState_def markChunk_range held_upload_def memory_upload_def
        recordChunk_mutator_def find_upload_stored)
qed

theorem recordChunk_out_of_range_atomic_witness:
  "held_upload demo_persistent ''alice'' ''F1'' = Some demo_upload
   \<and> fst (recordChunk ''t1'' ''alice'' ''F1'' 2 demo_persistent) = Inl chunk_out_of_range
   \<and> held_upload (snd (recordChunk ''t1'' ''alice'' ''F1'' 2 demo_persistent)) ''alice'' ''F1''
       = Some demo_upload"
proof -
  have h: "held_upload demo_persistent ''alice'' ''F1'' = Some demo_upload"
    by (simp add: demo_persistent_held)
  have l: "memory_upload demo_persistent ''alice'' ''F1'' = None
             \<longrightarrow> lock (store demo_persistent) = Fulfilled"
    by (simp add: demo_persistent_lock)
  have t: "totalChunks demo_upload = Num 2"
    by (simp add: demo_upload_def)
  from recordChunk_out_of_range_atomic [OF h l t, of 2 "''t1''"] h show ?thesis
    by simp
qed

text \<open>
  C7. When a \<open>recordChunk\<close> call with index \<open>i\<close> has succeeded, so that \<open>i\<close> is
  valid and present in \<open>receivedChunks\<close>, a second call with the same index
  succeeds too, and changes nothing in the metadata the manager holds but
  \<open>updatedAt\<close>: \<open>receivedChunks\<close> and \<open>receivedCount\<close> are as the first call left
  them, and the decorated upload returned has the same \<open>receivedCount\<close>,
  \<open>missingChunks\<close> and \<open>completed\<close>.
\<close>

theorem recordChunk_idempotent:
  assumes "recordChunk t1 k uid i m = (Inr r1, m1)"
  shows "\<exists>r2 m2 u1 u2.
           recordChunk t2 k uid i m1 = (Inr r2, m2)
         \<and> held_upload m1 k uid = Some u1 \<and> held_upload m2 k uid = Some u2
         \<and> i |\<in>| receivedChunks u1
         \<and> u2 = u1\<lparr>updatedAt := t2\<rparr>
         \<and> receivedChunks u2 = receivedChunks u1
         \<and> receivedCount u2 = receivedCount u1
         \<and> receivedCount (c_upload r2) = receivedCount (c_upload r1)
         \<and> missingChunks (c_upload r2) = missingChunks (c_upload r1)
         \<and> completed r2 = completed r1"
proof -
  have "\<exists>u1. held_upload m1 k uid = Some u1 \<and> i |\<in>| receivedChunks u1
            \<and> r1 = chunk_result_of u1
            \<and> fst (recordChunk t2 k uid i m1) = Inr (chunk_result_of (u1\<lparr>updatedAt := t2\<rparr>))
            \<and> held_upload (snd (recordChunk t2 k uid i m1)) k uid = Some (u1\<lparr>updatedAt := t2\<rparr>)"
  proof (cases "memory_upload m k uid")
    case None
    from recordChunk_twice_persistent [OF None assms] show ?thesis .
  next
    case (Some u)
    from recordChunk_twice_memory [OF Some assms] show ?thesis .
  qed
  then obtain u1 where h1: "held_upload m1 k uid = Some u1" and i: "i |\<in>| receivedChunks u1"
    and r1: "r1 = chunk_result_of u1"
    and r2: "fst (recordChunk t2 k uid i m1) = Inr (chunk_result_of (u1\<lparr>updatedAt := t2\<rparr>))"
    and h2: "held_upload (snd (recordChunk t2 k uid i m1)) k uid = Some (u1\<lparr>updatedAt := t2\<rparr>)"
    by blast
  let ?r2 = "chunk_result_of (u1\<lparr>updatedAt := t2\<rparr>)"
  let ?m2 = "snd (recordChunk t2 k uid i m1)"
  have e: "recordChunk t2 k uid i m1 = (Inr ?r2, ?m2)"
    using r2 by (simp add: prod_eq_iff)
  show ?thesis
    apply (rule exI [of _ ?r2])
    apply (rule exI [of _ ?m2])
    apply (rule exI [of _ u1])
    apply (rule exI [of _ "u1\<lparr>updatedAt := t2\<rparr>"])
    using e h1 h2 i r1
    apply (simp add: chunk_result_updatedAt)
    done
qed

theorem recordChunk_idempotent_witness:
  "\<exists>r1 m1 r2 m2.
      recordChunk ''t1'' ''alice'' ''F1'' 1 demo_memory = (Inr r1, m1)
    \<and> recordChunk ''t2'' ''alice'' ''F1'' 1 m1 = (Inr r2, m2)
    \<and> map_option receivedChunks (held_upload m2 ''alice'' ''F1'')
        = map_option receivedChunks (held_upload m1 ''alice'' ''F1'')
    \<and> map_option receivedCount (held_upload m2 ''alice'' ''F1'')
        = map_option receivedCount (held_upload m1 ''alice'' ''F1'')"
proof -
  have "\<exists>r1 m1. recordChunk ''t1'' ''alice'' ''F1'' 1 demo_memory = (Inr r1, m1)"
    by (simp add: recordChunk_def memory_upload_def demo_memory_ephemeral markChunk_def
        demo_upload_def Let_def)
  then obtain r1 m1 where a: "recordChunk ''t1'' ''alice'' ''F1'' 1 demo_memory = (Inr r1, m1)"
    by blast
  from recordChunk_idempotent [OF a, of "''t2''"] a show ?thesis
    by auto
qed

section \<open>Properties of the history\<close>




section \<open>Properties of the persisted document\<close>

text \<open>
  C4, as stated. The claim says that no upload metadata in the persisted document has
  a \<open>receivedCount\<close> field. The document written by the first persistent
  \<open>createUpload\<close> on a fresh data directory holds the upload with
  \<open>receivedCount: 0\<close>.
\<close>

theorem persisted_receivedCount_counterexample:
  "reachable demo_persistent
   \<and> backing (store demo_persistent)
       = Content \<lparr>users = [''alice'' \<mapsto>
           \<lparr>key = ''alice'', u_createdAt = ''t0'', uploads = [(''F1'', demo_upload)],
            history = []\<rparr>]\<rparr>
   \<and> receivedCount demo_upload = Some (Num 0)"
proof -
  have "reachable demo_persistent"
    unfolding demo_persistent_def manager0_def
    by (rule reachable.create [OF reachable.start])
  then show ?thesis
    by (simp add: demo_persistent_store demo_upload_def)
qed

text \<open>
  C4, amended. In every reachable manager, every upload metadata in the document that
  the backing file holds has no \<open>missingChunks\<close> field, and has a \<open>receivedCount\<close>
  field: \<open>missingChunks\<close> is computed on read only, \<open>receivedCount\<close> is stored
  (by \<open>createUpload\<close> and \<open>_markChunk\<close>) and recomputed on read.
\<close>

theorem persisted_metadata_fields:
  assumes "reachable m" and "backing (store m) = Content st"
    and "users st k = Some r" and "(uid, u) \<in> set (uploads r)"
  shows "missingChunks u = None \<and> receivedCount u \<noteq> None"
proof -
  from reachable_file_shape [OF assms(1)] assms(2) have "doc_shape st" by simp
  with assms(3,4) have "stored_shape u" by (auto simp: doc_shape_def)
  then show ?thesis by (simp add: stored_shape_def)
qed


theorem persisted_metadata_fields_witness:
  "reachable (snd (recordChunk ''t1'' ''alice'' ''F1'' 1 demo_persistent))
   \<and> missingChunks demo_upload = None \<and> receivedCount demo_upload \<noteq> None"
proof -
  have r: "reachable demo_persistent"
    unfolding demo_persistent_def manager0_def
    by (rule reachable.create [OF reachable.start])
  have b: "backing (store demo_persistent)
       = Content \<lparr>users = [''alice'' \<mapsto>
           \<lparr>key = ''alice'', u_createdAt = ''t0'', uploads = [(''F1'', demo_upload)],
            history = []\<rparr>]\<rparr>"
    by (simp add: demo_persistent_store)
  from persisted_metadata_fields [OF r b, of "''alice''" _ "''F1''" demo_upload]
  have "missingChunks demo_upload = None \<and> receivedCount demo_upload \<noteq> None"
    by simp
  with reachable.chunk [OF r] show ?thesis by simp
qed

section \<open>Properties of assembleFile\<close>






end
